theory Spec2Isabelle
  imports Complex_Main
begin

section \<open>C doubles\<close>

text \<open>
  Every amount and balance of \<^verbatim>\<open>server.c\<close> is a C \<^verbatim>\<open>double\<close>.  A double is
  modelled by its value and its sign bit: a finite rational (\<open>Fin 0\<close> is \<open>+0\<close>),
  the negative zero, one of the two infinities, or a NaN of either sign.
  Arithmetic rounds the exact result to the nearest binary64 number, ties to even,
  overflowing to an infinity and underflowing to the zero of the same sign;
  comparisons with NaN are false, as in C.
  The sign of a NaN result is the one of the SSE2 arithmetic of x86-64: an operation
  with a NaN operand returns that operand (the left one if both are NaN), and an
  invalid operation returns the default NaN, whose sign bit is set.
  Not modelled: the payload of a NaN (nothing in the program reads it).
\<close>

datatype double = Fin rat | NegZero | PInf | MInf | NaN | NegNaN

fun bit_length :: "nat \<Rightarrow> nat" where
  "bit_length n = (if n = 0 then 0 else Suc (bit_length (n div 2)))"

declare bit_length.simps [simp del]

text \<open>The binade of a non-zero rational: the \<open>e\<close> with \<open>2^e \<le> |q| < 2^(e+1)\<close>.\<close>

definition binade :: "rat \<Rightarrow> int" where
  "binade q =
     (let (a, b) = quotient_of q;
          k = int (bit_length (nat \<bar>a\<bar>)) - int (bit_length (nat b))
      in if 2 powi k \<le> \<bar>q\<bar> then k else k - 1)"

definition round_half_even :: "rat \<Rightarrow> int" where
  "round_half_even x =
     (let f = \<lfloor>x\<rfloor>; d = x - of_int f
      in if d < 1 / 2 then f
         else if 1 / 2 < d then f + 1
         else if even f then f else f + 1)"

text \<open>
  Rounding to binary64: 53 significant bits, the smallest quantum \<open>2^-1074\<close>,
  overflow at \<open>2^1024\<close>.  An exact zero result is \<open>+0\<close>.
\<close>

definition to_double :: "rat \<Rightarrow> double" where
  "to_double q =
     (if q = 0 then Fin 0
      else let p = max (binade q - 52) (- 1074);
               r = of_int (round_half_even (\<bar>q\<bar> / 2 powi p)) * 2 powi p
           in if 2 powi 1024 \<le> r then (if 0 < q then PInf else MInf)
              else if r = 0 then (if 0 < q then Fin 0 else NegZero)
              else Fin (if 0 < q then r else - r))"

definition is_nan :: "double \<Rightarrow> bool" where
  "is_nan x = (x = NaN \<or> x = NegNaN)"

definition is_inf :: "double \<Rightarrow> bool" where
  "is_inf x = (x = PInf \<or> x = MInf)"

definition is_zero :: "double \<Rightarrow> bool" where
  "is_zero x = (x = Fin 0 \<or> x = NegZero)"

fun signbit :: "double \<Rightarrow> bool" where
  "signbit (Fin x) = (x < 0)"
| "signbit NegZero = True"
| "signbit PInf = False"
| "signbit MInf = True"
| "signbit NaN = False"
| "signbit NegNaN = True"

text \<open>The value of a finite double.\<close>

fun val_of :: "double \<Rightarrow> rat" where
  "val_of (Fin x) = x"
| "val_of _ = 0"

definition signed_zero :: "bool \<Rightarrow> double" where
  "signed_zero neg = (if neg then NegZero else Fin 0)"

definition signed_inf :: "bool \<Rightarrow> double" where
  "signed_inf neg = (if neg then MInf else PInf)"

fun fneg :: "double \<Rightarrow> double" where
  "fneg (Fin x) = (if x = 0 then NegZero else Fin (- x))"
| "fneg NegZero = Fin 0"
| "fneg PInf = MInf"
| "fneg MInf = PInf"
| "fneg NaN = NegNaN"
| "fneg NegNaN = NaN"

fun fadd :: "double \<Rightarrow> double \<Rightarrow> double" where
  "fadd NaN _ = NaN"
| "fadd NegNaN _ = NegNaN"
| "fadd _ NaN = NaN"
| "fadd _ NegNaN = NegNaN"
| "fadd PInf MInf = NegNaN"
| "fadd MInf PInf = NegNaN"
| "fadd PInf _ = PInf"
| "fadd MInf _ = MInf"
| "fadd _ PInf = PInf"
| "fadd _ MInf = MInf"
| "fadd NegZero y = y"
| "fadd x NegZero = x"
| "fadd (Fin x) (Fin y) = to_double (x + y)"

text \<open>
  \<open>x - y\<close> is \<open>x + (- y)\<close>, except that a NaN operand comes back with its own sign.
\<close>

definition fsub :: "double \<Rightarrow> double \<Rightarrow> double" where
  "fsub x y = (if is_nan y then fadd x y else fadd x (fneg y))"

definition fmul :: "double \<Rightarrow> double \<Rightarrow> double" where
  "fmul x y =
     (if is_nan x then x
      else if is_nan y then y
      else let neg = (signbit x \<noteq> signbit y)
           in if is_inf x \<or> is_inf y
              then (if is_zero x \<or> is_zero y then NegNaN else signed_inf neg)
              else if is_zero x \<or> is_zero y then signed_zero neg
              else to_double (val_of x * val_of y))"

definition fdiv :: "double \<Rightarrow> double \<Rightarrow> double" where
  "fdiv x y =
     (if is_nan x then x
      else if is_nan y then y
      else let neg = (signbit x \<noteq> signbit y)
           in if is_inf x then (if is_inf y then NegNaN else signed_inf neg)
              else if is_inf y then signed_zero neg
              else if is_zero y then (if is_zero x then NegNaN else signed_inf neg)
              else if is_zero x then signed_zero neg
              else to_double (val_of x / val_of y))"

text \<open>The comparisons \<^verbatim>\<open><\<close> and \<^verbatim>\<open><=\<close> of C on doubles.\<close>

fun flt :: "double \<Rightarrow> double \<Rightarrow> bool" where
  "flt NaN _ = False"
| "flt NegNaN _ = False"
| "flt _ NaN = False"
| "flt _ NegNaN = False"
| "flt PInf _ = False"
| "flt _ MInf = False"
| "flt MInf _ = True"
| "flt _ PInf = True"
| "flt x y = (val_of x < val_of y)"

fun fle :: "double \<Rightarrow> double \<Rightarrow> bool" where
  "fle NaN _ = False"
| "fle NegNaN _ = False"
| "fle _ NaN = False"
| "fle _ NegNaN = False"
| "fle MInf _ = True"
| "fle _ PInf = True"
| "fle PInf _ = False"
| "fle _ MInf = False"
| "fle x y = (val_of x \<le> val_of y)"

section \<open>Currencies and the rate table\<close>

datatype Currency = CUR_USD | CUR_EUR | CUR_GBP

definition eur_to_usd :: double where
  "eur_to_usd = to_double (110 / 100)"

definition eur_to_gbp :: double where
  "eur_to_gbp = to_double (85 / 100)"

definition val_in_eur :: "Currency \<Rightarrow> double" where
  "val_in_eur from =
     (if from = CUR_EUR then Fin 1
      else if from = CUR_USD then fdiv (Fin 1) eur_to_usd
      else fdiv (Fin 1) eur_to_gbp)"

definition rate :: "Currency \<Rightarrow> Currency \<Rightarrow> double" where
  "rate from to =
     (if from = to then Fin 1
      else if to = CUR_EUR then val_in_eur from
      else if to = CUR_USD then fmul (val_in_eur from) eur_to_usd
      else fmul (val_in_eur from) eur_to_gbp)"

section \<open>Text output\<close>

text \<open>
  Every response of the server is a block of lines, each ended by a newline, the
  last one \<^verbatim>\<open>END\<close>.
\<close>

definition line :: "string \<Rightarrow> string" where
  "line s = s @ [CHR 0x0A]"

definition reply :: "string \<Rightarrow> string" where
  "reply s = line s @ line ''END''"

text \<open>\<^verbatim>\<open>snprintf\<close> into a buffer of \<open>n\<close> bytes keeps the first \<open>n - 1\<close> characters.\<close>

definition snprintf :: "nat \<Rightarrow> string \<Rightarrow> string" where
  "snprintf n s = take (n - 1) s"

definition digit :: "nat \<Rightarrow> char" where
  "digit d = ''0123456789'' ! d"

fun dec_nat :: "nat \<Rightarrow> string" where
  "dec_nat n = (if n < 10 then [digit n] else dec_nat (n div 10) @ [digit (n mod 10)])"

declare dec_nat.simps [simp del]

text \<open>\<^verbatim>\<open>%d\<close> of printf.\<close>

definition fmt_d :: "int \<Rightarrow> string" where
  "fmt_d i = (if i < 0 then ''-'' @ dec_nat (nat (- i)) else dec_nat (nat i))"

text \<open>
  \<^verbatim>\<open>%.<prec>f\<close> of printf: the sign, then the exact value rounded to \<open>prec\<close>
  decimals, ties to even, the fraction digits padded with zeros on the left; an
  infinity and a NaN are printed by name, after their sign.
\<close>

definition fmt_f :: "nat \<Rightarrow> double \<Rightarrow> string" where
  "fmt_f prec x =
     (if is_nan x then (if signbit x then ''-nan'' else ''nan'')
      else if is_inf x then (if signbit x then ''-inf'' else ''inf'')
      else
        (let n = nat (round_half_even (\<bar>val_of x\<bar> * 10 ^ prec));
             ip = dec_nat (n div 10 ^ prec);
             fp = dec_nat (n mod 10 ^ prec)
         in (if signbit x then ''-'' else []) @ ip @
            (if prec = 0 then []
             else ''.'' @ replicate (prec - length fp) (CHR ''0'') @ fp)))"

section \<open>The ledger\<close>

text \<open>
  \<^verbatim>\<open>double bal[CUR_COUNT]\<close>: one balance per currency, in the order USD, EUR, GBP.
\<close>

datatype balances = Bal double double double

fun bal_get :: "balances \<Rightarrow> Currency \<Rightarrow> double" where
  "bal_get (Bal u e g) CUR_USD = u"
| "bal_get (Bal u e g) CUR_EUR = e"
| "bal_get (Bal u e g) CUR_GBP = g"

fun bal_set :: "balances \<Rightarrow> Currency \<Rightarrow> double \<Rightarrow> balances" where
  "bal_set (Bal u e g) CUR_USD v = Bal v e g"
| "bal_set (Bal u e g) CUR_EUR v = Bal u v g"
| "bal_set (Bal u e g) CUR_GBP v = Bal u e v"

record User =
  username :: string
  password :: string

text \<open>
  The owners of an account are the first \<^verbatim>\<open>ownerCount\<close> entries of its array
  \<^verbatim>\<open>owners\<close>; the list \<open>owners\<close> holds exactly those.
\<close>

record Account =
  acc_id :: string
  isJoint :: bool
  owners :: "string list"
  bal :: balances

text \<open>
  The snapshot: the first \<^verbatim>\<open>userCount\<close> users and the first \<^verbatim>\<open>accCount\<close>
  accounts of the struct \<^verbatim>\<open>DB\<close>.
\<close>

record DB =
  users :: "User list"
  accounts :: "Account list"

definition MAX_USERS :: nat where "MAX_USERS = 200"
definition MAX_ACCOUNTS :: nat where "MAX_ACCOUNTS = 500"
definition MAX_OWNERS :: nat where "MAX_OWNERS = 5"
definition USERNAME_LEN :: nat where "USERNAME_LEN = 32"

definition CUR_NAMES :: "Currency \<Rightarrow> string" where
  "CUR_NAMES c = (case c of CUR_USD \<Rightarrow> ''USD'' | CUR_EUR \<Rightarrow> ''EUR'' | CUR_GBP \<Rightarrow> ''GBP'')"

text \<open>\<open>None\<close> is the \<open>-1\<close> of the C functions that return an index.\<close>

definition parse_currency :: "string \<Rightarrow> Currency option" where
  "parse_currency s =
     (if s = CUR_NAMES CUR_USD then Some CUR_USD
      else if s = CUR_NAMES CUR_EUR then Some CUR_EUR
      else if s = CUR_NAMES CUR_GBP then Some CUR_GBP
      else None)"

primrec first_index :: "('a \<Rightarrow> bool) \<Rightarrow> 'a list \<Rightarrow> nat option" where
  "first_index P [] = None"
| "first_index P (x # xs) =
     (if P x then Some 0 else map_option Suc (first_index P xs))"

definition user_index :: "DB \<Rightarrow> string \<Rightarrow> nat option" where
  "user_index db u = first_index (\<lambda>x. username x = u) (users db)"

definition account_index :: "DB \<Rightarrow> string \<Rightarrow> nat option" where
  "account_index db accid = first_index (\<lambda>a. acc_id a = accid) (accounts db)"

definition is_owner :: "Account \<Rightarrow> string \<Rightarrow> bool" where
  "is_owner a u = (u \<in> set (owners a))"

text \<open>
  \<^verbatim>\<open>gen_account_id\<close>: \<open>rands k\<close> is the value of the \<open>k\<close>-th call of \<^verbatim>\<open>rand()\<close>
  it makes.
\<close>

function gen_account_id_from :: "DB \<Rightarrow> (nat \<Rightarrow> nat) \<Rightarrow> nat \<Rightarrow> string option" where
  "gen_account_id_from db rands tries =
     (if tries < 10000
      then (let n = 1000 + rands tries mod 9000;
                out = snprintf 32 (''ACC'' @ fmt_d (int n))
            in if account_index db out = None then Some out
               else gen_account_id_from db rands (Suc tries))
      else None)"
  by pat_completeness auto
termination
  by (relation "measure (\<lambda>(db, rands, tries). 10000 - tries)") auto

declare gen_account_id_from.simps [simp del]

text \<open>The identifier that one round of the loop forms from the value \<open>r\<close> of \<^verbatim>\<open>rand()\<close>.\<close>

definition candidate :: "nat \<Rightarrow> string" where
  "candidate r = snprintf 32 (''ACC'' @ fmt_d (int (1000 + r mod 9000)))"

definition gen_account_id :: "DB \<Rightarrow> (nat \<Rightarrow> nat) \<Rightarrow> string option" where
  "gen_account_id db rands = gen_account_id_from db rands 0"

section \<open>Commands\<close>

text \<open>
  Each command takes the snapshot \<open>db\<close> that \<^verbatim>\<open>db_load_locked\<close> has read under
  the lock and returns the text sent to the client together with the snapshot handed
  to \<^verbatim>\<open>db_save_locked\<close>, or \<open>None\<close> when it returns without saving.
\<close>

definition cmd_register :: "DB \<Rightarrow> string \<Rightarrow> string \<Rightarrow> string \<times> DB option" where
  "cmd_register db u p =
     (if user_index db u \<noteq> None then (reply ''ERR User already exists'', None)
      else if MAX_USERS \<le> length (users db) then (reply ''ERR User limit reached'', None)
      else (reply ''OK Registered'',
            Some (db\<lparr>users := users db @ [\<lparr>username = u, password = p\<rparr>]\<rparr>)))"

text \<open>
  \<^verbatim>\<open>cmd_login\<close> writes \<^verbatim>\<open>loggedUser\<close> through its pointer; the model returns its
  new value. A user name scanned with \<^verbatim>\<open>%31s\<close> fits the buffer, so \<^verbatim>\<open>strncpy\<close>
  copies it whole.
\<close>

definition cmd_login :: "DB \<Rightarrow> string \<Rightarrow> string \<Rightarrow> string \<Rightarrow> string \<times> string" where
  "cmd_login db u p loggedUser =
     (case user_index db u of
        None \<Rightarrow> (reply ''ERR No such user'', loggedUser)
      | Some idx \<Rightarrow>
          if password (users db ! idx) \<noteq> p then (reply ''ERR Wrong password'', loggedUser)
          else (reply ''OK Logged in'', u))"

text \<open>\<^verbatim>\<open>strtok\<close> with one delimiter, run to the end: the non-empty fields.\<close>

fun strtok_all :: "char \<Rightarrow> string \<Rightarrow> string \<Rightarrow> string list" where
  "strtok_all d [] cur = (if cur = [] then [] else [cur])"
| "strtok_all d (c # cs) cur =
     (if c = d then (if cur = [] then strtok_all d cs [] else cur # strtok_all d cs [])
      else strtok_all d cs (cur @ [c]))"

text \<open>
  The owner loop of \<^verbatim>\<open>cmd_create_account\<close>: \<open>acc\<close> holds the owners stored so far;
  \<open>None\<close> is the return on an unregistered owner.
\<close>

fun parse_owners :: "DB \<Rightarrow> string list \<Rightarrow> string list \<Rightarrow> string list option" where
  "parse_owners db [] acc = Some acc"
| "parse_owners db (tok # toks) acc =
     (if length acc < MAX_OWNERS
      then (if user_index db tok = None then None
            else parse_owners db toks (acc @ [take (USERNAME_LEN - 1) tok]))
      else Some acc)"

definition cmd_create_account ::
  "DB \<Rightarrow> (nat \<Rightarrow> nat) \<Rightarrow> string \<Rightarrow> string \<Rightarrow> string \<Rightarrow> string \<times> DB option" where
  "cmd_create_account db rands loggedUser type ownersCSV =
     (if loggedUser = [] then (reply ''ERR Please LOGIN first'', None)
      else if type \<noteq> ''IND'' \<and> type \<noteq> ''JOINT''
      then (reply ''ERR type must be IND or JOINT'', None)
      else if MAX_ACCOUNTS \<le> length (accounts db)
      then (reply ''ERR Account limit reached'', None)
      else case gen_account_id db rands of
        None \<Rightarrow> (reply ''ERR Could not generate account id'', None)
      | Some aid \<Rightarrow>
         (case parse_owners db (strtok_all (CHR '','') (take 255 ownersCSV) []) [] of
            None \<Rightarrow>
              (reply ''ERR One or more owners do not exist (REGISTER them first)'', None)
          | Some os \<Rightarrow>
              if os = [] then (reply ''ERR ownersCSV is empty'', None)
              else if type = ''IND'' \<and> length os \<noteq> 1
              then (reply ''ERR IND account must have exactly 1 owner'', None)
              else if type = ''IND'' \<and> hd os \<noteq> loggedUser
              then (reply ''ERR IND account owner must be the logged-in user'', None)
              else if type = ''JOINT'' \<and> loggedUser \<notin> set os
              then (reply ''ERR JOINT account must include logged-in user among owners'',
                    None)
              else (snprintf 128 (reply (''OK Created '' @ aid)),
                    Some (db\<lparr>accounts := accounts db @
                      [\<lparr>acc_id = aid, isJoint = (type = ''JOINT''), owners = os,
                        bal = Bal (Fin 0) (Fin 0) (Fin 0)\<rparr>]\<rparr>))))"

definition cmd_balances :: "DB \<Rightarrow> string \<Rightarrow> string \<Rightarrow> string" where
  "cmd_balances db loggedUser accid =
     (if loggedUser = [] then reply ''ERR Please LOGIN first''
      else case account_index db accid of
        None \<Rightarrow> reply ''ERR No such account''
      | Some idx \<Rightarrow>
          let a = accounts db ! idx
          in if \<not> is_owner a loggedUser then reply ''ERR Not an owner''
             else snprintf 256
                    (reply (''OK '' @ acc_id a @ '' balances: USD='' @
                       fmt_f 2 (bal_get (bal a) CUR_USD) @ '' EUR='' @
                       fmt_f 2 (bal_get (bal a) CUR_EUR) @ '' GBP='' @
                       fmt_f 2 (bal_get (bal a) CUR_GBP))))"

definition cmd_deposit_withdraw ::
  "DB \<Rightarrow> string \<Rightarrow> string \<Rightarrow> string \<Rightarrow> string \<Rightarrow> double \<Rightarrow> string \<times> DB option" where
  "cmd_deposit_withdraw db loggedUser op accid curS amount =
     (if loggedUser = [] then (reply ''ERR Please LOGIN first'', None)
      else if fle amount (Fin 0) then (reply ''ERR amount must be > 0'', None)
      else case parse_currency curS of
        None \<Rightarrow> (reply ''ERR Unknown currency (USD/EUR/GBP)'', None)
      | Some cur \<Rightarrow>
         (case account_index db accid of
            None \<Rightarrow> (reply ''ERR No such account'', None)
          | Some idx \<Rightarrow>
              let a = accounts db ! idx
              in if \<not> is_owner a loggedUser then (reply ''ERR Not an owner'', None)
                 else if op = ''DEPOSIT''
                 then (reply ''OK Done'',
                       Some (db\<lparr>accounts := (accounts db)
                         [idx := a\<lparr>bal := bal_set (bal a) cur
                                   (fadd (bal_get (bal a) cur) amount)\<rparr>]\<rparr>))
                 else if op = ''WITHDRAW''
                 then (if flt (bal_get (bal a) cur) amount
                       then (reply ''ERR Insufficient funds'', None)
                       else (reply ''OK Done'',
                             Some (db\<lparr>accounts := (accounts db)
                               [idx := a\<lparr>bal := bal_set (bal a) cur
                                         (fsub (bal_get (bal a) cur) amount)\<rparr>]\<rparr>)))
                 else (reply ''ERR Internal op'', None)))"

definition cmd_exchange ::
  "DB \<Rightarrow> string \<Rightarrow> string \<Rightarrow> string \<Rightarrow> string \<Rightarrow> double \<Rightarrow> string \<times> DB option" where
  "cmd_exchange db loggedUser accid fromS toS amount =
     (if loggedUser = [] then (reply ''ERR Please LOGIN first'', None)
      else if fle amount (Fin 0) then (reply ''ERR amount must be > 0'', None)
      else case (parse_currency fromS, parse_currency toS) of
        (None, _) \<Rightarrow> (reply ''ERR Unknown currency (USD/EUR/GBP)'', None)
      | (_, None) \<Rightarrow> (reply ''ERR Unknown currency (USD/EUR/GBP)'', None)
      | (Some from, Some to) \<Rightarrow>
          if from = to then (reply ''ERR FROMCUR and TOCUR must differ'', None)
          else case account_index db accid of
            None \<Rightarrow> (reply ''ERR No such account'', None)
          | Some idx \<Rightarrow>
              let a = accounts db ! idx
              in if \<not> is_owner a loggedUser then (reply ''ERR Not an owner'', None)
                 else if flt (bal_get (bal a) from) amount
                 then (reply ''ERR Insufficient funds'', None)
                 else
                   let r = rate from to;
                       converted = fmul amount r;
                       b1 = bal_set (bal a) from (fsub (bal_get (bal a) from) amount);
                       b2 = bal_set b1 to (fadd (bal_get b1 to) converted)
                   in (snprintf 256
                         (reply (''OK Exchanged '' @ fmt_f 2 amount @ '' '' @
                            CUR_NAMES from @ '' -> '' @ fmt_f 2 converted @ '' '' @
                            CUR_NAMES to @ '' (rate='' @ fmt_f 6 r @ '')'')),
                       Some (db\<lparr>accounts := (accounts db)[idx := a\<lparr>bal := b2\<rparr>]\<rparr>)))"

definition cmd_help :: string where
  "cmd_help =
     line ''OK Commands:'' @
     line ''  REGISTER <user> <pass>'' @
     line ''  LOGIN <user> <pass>'' @
     line ''  RATES'' @
     line ''  CREATE_ACCOUNT IND|JOINT <ownersCSV>'' @
     line ''  LIST_ACCOUNTS'' @
     line ''  BALANCES <accid>'' @
     line ''  DEPOSIT <accid> <CUR> <amount>'' @
     line ''  WITHDRAW <accid> <CUR> <amount>'' @
     line ''  EXCHANGE <accid> <FROMCUR> <TOCUR> <amount>'' @
     line ''  QUIT'' @
     line ''END''"

definition cmd_rates :: string where
  "cmd_rates =
     snprintf 512
       (line ''OK Rates (approx, fixed):'' @
        line (''  1 EUR = '' @ fmt_f 2 (rate CUR_EUR CUR_USD) @ '' USD'') @
        line (''  1 EUR = '' @ fmt_f 2 (rate CUR_EUR CUR_GBP) @ '' GBP'') @
        line ''END'')"

text \<open>The owners joined by commas, as the \<^verbatim>\<open>strcat\<close> loops build \<^verbatim>\<open>ownersCSV\<close>.\<close>

fun csv_join :: "string list \<Rightarrow> string" where
  "csv_join [] = []"
| "csv_join [x] = x"
| "csv_join (x # y # ys) = x @ '','' @ csv_join (y # ys)"

definition cmd_list_accounts :: "DB \<Rightarrow> string \<Rightarrow> string" where
  "cmd_list_accounts db loggedUser =
     (if loggedUser = [] then reply ''ERR Please LOGIN first''
      else line ''OK Accounts:'' @
           concat (map (\<lambda>a. snprintf 512
                              (line (''  '' @ acc_id a @ ''  '' @
                                 (if isJoint a then ''JOINT'' else ''IND'') @
                                 ''  owners='' @ csv_join (owners a))))
                       (filter (\<lambda>a. is_owner a loggedUser) (accounts db))) @
           line ''END'')"

section \<open>The store file\<close>

text \<open>
  The store is the content of \<^verbatim>\<open>exchange_db.txt\<close>, a string without NUL bytes.
  \<^verbatim>\<open>sscanf\<close> is modelled directive by directive, as the C library of the
  image (glibc) implements it; a scan is \<open>None\<close> when \<^verbatim>\<open>sscanf\<close> returns
  fewer conversions than the caller asks for.
\<close>

definition isspace :: "char \<Rightarrow> bool" where
  "isspace c = (c \<in> set [CHR '' '', CHR 0x09, CHR 0x0A, CHR 0x0B, CHR 0x0C, CHR 0x0D])"

definition isdigit :: "char \<Rightarrow> bool" where
  "isdigit c = (c \<in> set ''0123456789'')"

definition isxdigit :: "char \<Rightarrow> bool" where
  "isxdigit c = (c \<in> set ''0123456789abcdefABCDEF'')"

definition tolower :: "char \<Rightarrow> char" where
  "tolower c =
     (case first_index (\<lambda>d. d = c) ''ABCDEFGHIJKLMNOPQRSTUVWXYZ'' of
        None \<Rightarrow> c
      | Some i \<Rightarrow> ''abcdefghijklmnopqrstuvwxyz'' ! i)"

definition digit_val :: "char \<Rightarrow> nat" where
  "digit_val c =
     (case first_index (\<lambda>d. d = tolower c) ''0123456789abcdef'' of
        None \<Rightarrow> 0
      | Some i \<Rightarrow> i)"

fun num_val :: "nat \<Rightarrow> string \<Rightarrow> nat \<Rightarrow> nat" where
  "num_val base [] acc = acc"
| "num_val base (c # cs) acc = num_val base cs (base * acc + digit_val c)"

definition trim_newline :: "string \<Rightarrow> string" where
  "trim_newline s = rev (dropWhile (\<lambda>c. c = CHR 0x0A \<or> c = CHR 0x0D) (rev s))"

text \<open>\<^verbatim>\<open>%<w>s\<close>: skip white space, then up to \<open>w\<close> characters that are not.\<close>

definition scan_s :: "nat \<Rightarrow> string \<Rightarrow> (string \<times> string) option" where
  "scan_s w inp =
     (let i = dropWhile isspace inp;
          tok = take w (takeWhile (\<lambda>c. \<not> isspace c) i)
      in if tok = [] then None else Some (tok, drop (length tok) i))"

text \<open>Ordinary characters of a format match the input exactly.\<close>

definition scan_lit :: "string \<Rightarrow> string \<Rightarrow> string option" where
  "scan_lit l inp = (if take (length l) inp = l then Some (drop (length l) inp) else None)"

definition scan_sign :: "string \<Rightarrow> bool \<times> string" where
  "scan_sign i =
     (case i of
        [] \<Rightarrow> (False, [])
      | c # cs \<Rightarrow>
          if c = CHR ''-'' then (True, cs)
          else if c = CHR ''+'' then (False, cs)
          else (False, i))"

text \<open>
  \<^verbatim>\<open>%d\<close>: the digits are converted as by \<^verbatim>\<open>strtol\<close>, which clamps to the range
  of \<^verbatim>\<open>long\<close>, and stored into an \<^verbatim>\<open>int\<close>, which keeps the low 32 bits.
\<close>

definition to_int32 :: "int \<Rightarrow> int" where
  "to_int32 v =
     (let l = max (- (2 ^ 63)) (min (2 ^ 63 - 1) v)
      in (l + 2 ^ 31) mod 2 ^ 32 - 2 ^ 31)"

definition scan_d :: "string \<Rightarrow> (int \<times> string) option" where
  "scan_d inp =
     (let (neg, j) = scan_sign (dropWhile isspace inp);
          ds = takeWhile isdigit j;
          v = int (num_val 10 ds 0)
      in if ds = [] then None
         else Some (to_int32 (if neg then - v else v), drop (length ds) j))"

text \<open>
  \<^verbatim>\<open>%lf\<close>. The characters of a number are collected by the state machine of
  \<^verbatim>\<open>scanf\<close> (digits, one decimal point, one exponent letter after a digit, a sign
  right after the exponent letter; hexadecimal after \<^verbatim>\<open>0x\<close>); \<^verbatim>\<open>strtod\<close> then
  converts the longest prefix of them that is a number, rounding correctly.
\<close>

definition exp_char :: "bool \<Rightarrow> char" where
  "exp_char hex = (if hex then CHR ''p'' else CHR ''e'')"

fun scan_float_chars ::
  "bool \<Rightarrow> bool \<Rightarrow> bool \<Rightarrow> bool \<Rightarrow> string \<Rightarrow> string \<Rightarrow> string \<times> string" where
  "scan_float_chars hex got_digit got_dot got_e buf [] = (buf, [])"
| "scan_float_chars hex got_digit got_dot got_e buf (c # cs) =
     (if isdigit c then scan_float_chars hex True got_dot got_e (buf @ [c]) cs
      else if \<not> got_e \<and> hex \<and> isxdigit c
      then scan_float_chars hex True got_dot got_e (buf @ [c]) cs
      else if got_e \<and> buf \<noteq> [] \<and> last buf = exp_char hex \<and>
              (c = CHR ''-'' \<or> c = CHR ''+'')
      then scan_float_chars hex got_digit got_dot got_e (buf @ [c]) cs
      else if got_digit \<and> \<not> got_e \<and> tolower c = exp_char hex
      then scan_float_chars hex got_digit True True (buf @ [exp_char hex]) cs
      else if c = CHR ''.'' \<and> \<not> got_dot
      then scan_float_chars hex got_digit True got_e (buf @ [c]) cs
      else (buf, c # cs))"

text \<open>The exponent of a number: \<open>0\<close> unless the letter is followed by digits.\<close>

definition strtod_exp :: "bool \<Rightarrow> string \<Rightarrow> int" where
  "strtod_exp hex r =
     (case r of
        [] \<Rightarrow> 0
      | c # cs \<Rightarrow>
          if c = exp_char hex
          then (let (neg, j) = scan_sign cs;
                    ds = takeWhile isdigit j;
                    v = int (num_val 10 ds 0)
                in if ds = [] then 0 else if neg then - v else v)
          else 0)"

definition strtod_digits :: "bool \<Rightarrow> string \<Rightarrow> rat option" where
  "strtod_digits hex b =
     (let isd = (if hex then isxdigit else isdigit);
          base = (if hex then 16 else 10);
          ip = takeWhile isd b;
          r1 = drop (length ip) b;
          fp = (case r1 of [] \<Rightarrow> [] | c # cs \<Rightarrow> if c = CHR ''.'' then takeWhile isd cs else []);
          r2 = (case r1 of [] \<Rightarrow> []
                | c # cs \<Rightarrow> if c = CHR ''.'' then drop (length fp) cs else r1);
          mant = of_nat (num_val base (ip @ fp) 0) / of_nat base ^ length fp
      in if ip = [] \<and> fp = [] then None
         else Some (mant * (if hex then 2 else 10) powi strtod_exp hex r2))"

definition strtod_buf :: "string \<Rightarrow> rat option" where
  "strtod_buf b =
     (if take 2 (map tolower b) = ''0x''
      then (case strtod_digits True (drop 2 b) of None \<Rightarrow> Some 0 | Some v \<Rightarrow> Some v)
      else strtod_digits False b)"

definition scan_number :: "string \<Rightarrow> (rat \<times> string) option" where
  "scan_number j =
     (let (buf, rest) =
            (case j of
               [] \<Rightarrow> ([], [])
             | c # cs \<Rightarrow>
                 if c = CHR ''0''
                 then (case cs of
                         [] \<Rightarrow> (''0'', [])
                       | x # xs \<Rightarrow>
                           if tolower x = CHR ''x''
                           then scan_float_chars True False False False [c, x] xs
                           else scan_float_chars False True False False ''0'' cs)
                 else scan_float_chars False False False False [] j)
      in if buf = [] \<or> map tolower buf = ''0x'' then None
         else map_option (\<lambda>v. (v, rest)) (strtod_buf buf))"

definition scan_lf :: "string \<Rightarrow> (double \<times> string) option" where
  "scan_lf inp =
     (let (neg, j) = scan_sign (dropWhile isspace inp);
          low = map tolower j
      in if take 1 low = ''n''
         then (if take 3 low = ''nan''
               then Some (if neg then NegNaN else NaN, drop 3 j) else None)
         else if take 1 low = ''i''
         then (if take 3 low \<noteq> ''inf'' then None
               else if take 1 (drop 3 low) = ''i''
               then (if take 8 low = ''infinity''
                     then Some (if neg then MInf else PInf, drop 8 j) else None)
               else Some (if neg then MInf else PInf, drop 3 j))
         else (case scan_number j of
                 None \<Rightarrow> None
               | Some (v, rest) \<Rightarrow>
                   Some (if neg then fneg (to_double v) else to_double v, rest)))"

text \<open>
  \<^verbatim>\<open>fgets(line, 1024, fp)\<close>: at most 1023 characters, ending after a newline.
\<close>

fun fgets_take :: "nat \<Rightarrow> string \<Rightarrow> string \<times> string" where
  "fgets_take k [] = ([], [])"
| "fgets_take k (c # cs) =
     (if k = 0 then ([], c # cs)
      else if c = CHR 0x0A then ([c], cs)
      else (let (l, r) = fgets_take (k - 1) cs in (c # l, r)))"

function read_lines :: "string \<Rightarrow> string list" where
  "read_lines inp =
     (if inp = [] then []
      else fst (fgets_take 1023 inp) # read_lines (snd (fgets_take 1023 inp)))"
  by pat_completeness auto
termination
proof (relation "measure length")
  show "wf (measure length)" by simp
next
  fix inp :: string
  assume "inp \<noteq> []"
  then obtain c cs where inp: "inp = c # cs" by (cases inp) auto
  have le: "length (snd (fgets_take k xs)) \<le> length xs" for k xs
    by (induction k xs rule: fgets_take.induct) (auto split: prod.splits)
  have "length (snd (fgets_take 1023 inp)) < length inp"
    using le[of 1022 cs] inp by (auto split: prod.splits)
  then show "(snd (fgets_take 1023 inp), inp) \<in> measure length" by simp
qed

declare read_lines.simps [simp del]

definition scan_user :: "string \<Rightarrow> (string \<times> string) option" where
  "scan_user txt =
     (case scan_lit ''USER'' txt of None \<Rightarrow> None
      | Some r0 \<Rightarrow>
     (case scan_s 31 r0 of None \<Rightarrow> None
      | Some (u, r1) \<Rightarrow>
     (case scan_s 31 r1 of None \<Rightarrow> None
      | Some (p, r2) \<Rightarrow> Some (u, p))))"

definition scan_acc ::
  "string \<Rightarrow> (string \<times> string \<times> int \<times> string \<times> double \<times> double \<times> double) option" where
  "scan_acc txt =
     (case scan_lit ''ACC'' txt of None \<Rightarrow> None
      | Some r0 \<Rightarrow>
     (case scan_s 31 r0 of None \<Rightarrow> None
      | Some (aid, r1) \<Rightarrow>
     (case scan_s 15 r1 of None \<Rightarrow> None
      | Some (type, r2) \<Rightarrow>
     (case scan_d r2 of None \<Rightarrow> None
      | Some (ownerCount, r3) \<Rightarrow>
     (case scan_s 255 r3 of None \<Rightarrow> None
      | Some (ownersCSV, r4) \<Rightarrow>
     (case scan_lf r4 of None \<Rightarrow> None
      | Some (b0, r5) \<Rightarrow>
     (case scan_lf r5 of None \<Rightarrow> None
      | Some (b1, r6) \<Rightarrow>
     (case scan_lf r6 of None \<Rightarrow> None
      | Some (b2, r7) \<Rightarrow> Some (aid, type, ownerCount, ownersCSV, b0, b1, b2)))))))))"

text \<open>One round of the loop of \<^verbatim>\<open>db_load_locked\<close>, on the line \<^verbatim>\<open>fgets\<close> returned.\<close>

definition load_line :: "DB \<Rightarrow> string \<Rightarrow> DB" where
  "load_line db l =
     (let txt = trim_newline l
      in if txt = [] then db
         else if take 5 txt = ''USER ''
         then (if MAX_USERS \<le> length (users db) then db
               else case scan_user txt of
                 None \<Rightarrow> db
               | Some (u, p) \<Rightarrow> db\<lparr>users := users db @ [\<lparr>username = u, password = p\<rparr>]\<rparr>)
         else if take 4 txt = ''ACC ''
         then (if MAX_ACCOUNTS \<le> length (accounts db) then db
               else case scan_acc txt of
                 None \<Rightarrow> db
               | Some (aid, type, ownerCount, ownersCSV, b0, b1, b2) \<Rightarrow>
                   db\<lparr>accounts := accounts db @
                     [\<lparr>acc_id = aid, isJoint = (type = ''JOINT''),
                       owners = map (take (USERNAME_LEN - 1))
                         (take (nat (min ownerCount (int MAX_OWNERS)))
                            (strtok_all (CHR '','') (take 255 ownersCSV) [])),
                       bal = Bal b0 b1 b2\<rparr>]\<rparr>)
         else db)"

definition db_load_locked :: "string \<Rightarrow> DB" where
  "db_load_locked store = foldl load_line \<lparr>users = [], accounts = []\<rparr> (read_lines store)"

definition user_line :: "User \<Rightarrow> string" where
  "user_line u = line (''USER '' @ username u @ '' '' @ password u)"

definition acc_line :: "Account \<Rightarrow> string" where
  "acc_line a =
     line (''ACC '' @ acc_id a @ '' '' @ (if isJoint a then ''JOINT'' else ''IND'') @ '' '' @
           fmt_d (int (length (owners a))) @ '' '' @
           (if csv_join (owners a) = [] then ''-'' else csv_join (owners a)) @ '' '' @
           fmt_f 2 (bal_get (bal a) CUR_USD) @ '' '' @
           fmt_f 2 (bal_get (bal a) CUR_EUR) @ '' '' @
           fmt_f 2 (bal_get (bal a) CUR_GBP))"

definition db_save_locked :: "DB \<Rightarrow> string" where
  "db_save_locked db = concat (map user_line (users db)) @ concat (map acc_line (accounts db))"

text \<open>
  A command under the lock: load the store, run the command on the snapshot, and
  write the store again only if the command saves.
\<close>

definition locked :: "(DB \<Rightarrow> string \<times> DB option) \<Rightarrow> string \<Rightarrow> string \<times> string" where
  "locked cmd store =
     (case cmd (db_load_locked store) of
        (out, None) \<Rightarrow> (out, store)
      | (out, Some db') \<Rightarrow> (out, db_save_locked db'))"

section \<open>The connection handler\<close>

text \<open>
  One round of the loop of \<^verbatim>\<open>handleClient\<close> after the prompt, when
  \<^verbatim>\<open>recv_line\<close> has returned \<open>raw\<close>: the text sent to the client, the new \<^verbatim>\<open>loggedUser\<close> (empty while nobody
  is logged in), the new content of the store, and whether the loop goes on.
\<close>

definition scan2 :: "string \<Rightarrow> nat \<Rightarrow> nat \<Rightarrow> string \<Rightarrow> (string \<times> string) option" where
  "scan2 l w1 w2 txt =
     (case scan_lit l txt of None \<Rightarrow> None
      | Some r0 \<Rightarrow>
     (case scan_s w1 r0 of None \<Rightarrow> None
      | Some (a, r1) \<Rightarrow>
     (case scan_s w2 r1 of None \<Rightarrow> None
      | Some (b, r2) \<Rightarrow> Some (a, b))))"

definition scan_deposit :: "string \<Rightarrow> (string \<times> string \<times> string \<times> double) option" where
  "scan_deposit txt =
     (case scan_s 31 txt of None \<Rightarrow> None
      | Some (cmd, r1) \<Rightarrow>
     (case scan_s 31 r1 of None \<Rightarrow> None
      | Some (accid, r2) \<Rightarrow>
     (case scan_s 7 r2 of None \<Rightarrow> None
      | Some (curS, r3) \<Rightarrow>
     (case scan_lf r3 of None \<Rightarrow> None
      | Some (amount, r4) \<Rightarrow> Some (cmd, accid, curS, amount)))))"

definition scan_exchange :: "string \<Rightarrow> (string \<times> string \<times> string \<times> double) option" where
  "scan_exchange txt =
     (case scan_lit ''EXCHANGE'' txt of None \<Rightarrow> None
      | Some r0 \<Rightarrow>
     (case scan_s 31 r0 of None \<Rightarrow> None
      | Some (accid, r1) \<Rightarrow>
     (case scan_s 7 r1 of None \<Rightarrow> None
      | Some (fromS, r2) \<Rightarrow>
     (case scan_s 7 r2 of None \<Rightarrow> None
      | Some (toS, r3) \<Rightarrow>
     (case scan_lf r3 of None \<Rightarrow> None
      | Some (amount, r4) \<Rightarrow> Some (accid, fromS, toS, amount))))))"

definition handle_line ::
  "(nat \<Rightarrow> nat) \<Rightarrow> string \<Rightarrow> string \<Rightarrow> string \<Rightarrow> string \<times> string \<times> string \<times> bool" where
  "handle_line rands loggedUser store raw =
     (let txt = trim_newline raw
      in if txt = [] then ([], loggedUser, store, True)
         else case scan_s 31 txt of
           None \<Rightarrow> ([], loggedUser, store, True)
         | Some (cmd, _) \<Rightarrow>
             if cmd = ''HELP'' then (cmd_help, loggedUser, store, True)
             else if cmd = ''RATES'' then (cmd_rates, loggedUser, store, True)
             else if cmd = ''REGISTER''
             then (case scan2 ''REGISTER'' 31 31 txt of
                     None \<Rightarrow> (reply ''ERR Usage: REGISTER <user> <pass>'',
                               loggedUser, store, True)
                   | Some (u, p) \<Rightarrow>
                       (let (out, store') = locked (\<lambda>db. cmd_register db u p) store
                        in (out, loggedUser, store', True)))
             else if cmd = ''LOGIN''
             then (case scan2 ''LOGIN'' 31 31 txt of
                     None \<Rightarrow> (reply ''ERR Usage: LOGIN <user> <pass>'',
                               loggedUser, store, True)
                   | Some (u, p) \<Rightarrow>
                       (let (out, loggedUser') =
                              cmd_login (db_load_locked store) u p loggedUser
                        in (out, loggedUser', store, True)))
             else if cmd = ''CREATE_ACCOUNT''
             then (case scan2 ''CREATE_ACCOUNT'' 15 255 txt of
                     None \<Rightarrow> (reply ''ERR Usage: CREATE_ACCOUNT IND|JOINT <ownersCSV>'',
                               loggedUser, store, True)
                   | Some (type, ownersCSV) \<Rightarrow>
                       (let (out, store') =
                              locked (\<lambda>db. cmd_create_account db rands loggedUser type
                                              ownersCSV) store
                        in (out, loggedUser, store', True)))
             else if cmd = ''LIST_ACCOUNTS''
             then (cmd_list_accounts (db_load_locked store) loggedUser,
                   loggedUser, store, True)
             else if cmd = ''BALANCES''
             then (case scan_lit ''BALANCES'' txt of
                     None \<Rightarrow> (reply ''ERR Usage: BALANCES <accid>'', loggedUser, store, True)
                   | Some r0 \<Rightarrow>
                      (case scan_s 31 r0 of
                         None \<Rightarrow> (reply ''ERR Usage: BALANCES <accid>'',
                                   loggedUser, store, True)
                       | Some (accid, _) \<Rightarrow>
                           (cmd_balances (db_load_locked store) loggedUser accid,
                            loggedUser, store, True)))
             else if cmd = ''DEPOSIT'' \<or> cmd = ''WITHDRAW''
             then (case scan_deposit txt of
                     None \<Rightarrow> (reply ''ERR Usage: DEPOSIT|WITHDRAW <accid> <CUR> <amount>'',
                               loggedUser, store, True)
                   | Some (op, accid, curS, amount) \<Rightarrow>
                       (let (out, store') =
                              locked (\<lambda>db. cmd_deposit_withdraw db loggedUser op accid curS
                                              amount) store
                        in (out, loggedUser, store', True)))
             else if cmd = ''EXCHANGE''
             then (case scan_exchange txt of
                     None \<Rightarrow>
                       (reply ''ERR Usage: EXCHANGE <accid> <FROMCUR> <TOCUR> <amount>'',
                        loggedUser, store, True)
                   | Some (accid, fromS, toS, amount) \<Rightarrow>
                       (let (out, store') =
                              locked (\<lambda>db. cmd_exchange db loggedUser accid fromS toS
                                              amount) store
                        in (out, loggedUser, store', True)))
             else if cmd = ''QUIT'' then (reply ''OK Bye'', loggedUser, store, False)
             else (reply ''ERR Unknown command (try HELP)'', loggedUser, store, True))"

section \<open>Example snapshots\<close>

text \<open>
  The ledger of the end-to-end scenario after its deposit: two users, and one
  individual account of alice holding 100 USD.
\<close>

definition alice_db :: DB where
  "alice_db =
     \<lparr>users = [\<lparr>username = ''alice'', password = ''pw1''\<rparr>,
               \<lparr>username = ''bob'', password = ''pw2''\<rparr>],
      accounts = [\<lparr>acc_id = ''ACC1000'', isJoint = False, owners = [''alice''],
                   bal = Bal (Fin 100) (Fin 0) (Fin 0)\<rparr>]\<rparr>"

text \<open>The same ledger after the exchange of 10 USD into EUR.\<close>

definition alice_db_exchanged :: DB where
  "alice_db_exchanged =
     \<lparr>users = [\<lparr>username = ''alice'', password = ''pw1''\<rparr>,
               \<lparr>username = ''bob'', password = ''pw2''\<rparr>],
      accounts = [\<lparr>acc_id = ''ACC1000'', isJoint = False, owners = [''alice''],
                   bal = Bal (Fin 90) (Fin (2558863424642327 / 281474976710656)) (Fin 0)\<rparr>]\<rparr>"

text \<open>Five registered users and no account yet.\<close>

definition club_db :: DB where
  "club_db =
     \<lparr>users = [\<lparr>username = ''ann'', password = ''a''\<rparr>,
               \<lparr>username = ''ben'', password = ''b''\<rparr>,
               \<lparr>username = ''cat'', password = ''c''\<rparr>,
               \<lparr>username = ''dan'', password = ''d''\<rparr>,
               \<lparr>username = ''eve'', password = ''e''\<rparr>],
      accounts = []\<rparr>"

text \<open>Two sequences of values of \<^verbatim>\<open>rand()\<close>: always 0, and 0, 1, 2, \<dots>\<close>

definition rand_zero :: "nat \<Rightarrow> nat" where
  "rand_zero k = 0"

definition rand_count :: "nat \<Rightarrow> nat" where
  "rand_count k = k"

text \<open>The store file that holds the ledger \<open>alice_db\<close>, as \<^verbatim>\<open>db_save_locked\<close> writes it.\<close>

definition alice_store :: string where
  "alice_store =
     line ''USER alice pw1'' @
     line ''USER bob pw2'' @
     line ''ACC ACC1000 IND 1 alice 100.00 0.00 0.00''"

text \<open>The store file after the exchange of 10 USD into EUR.\<close>

definition alice_store_exchanged :: string where
  "alice_store_exchanged =
     line ''USER alice pw1'' @
     line ''USER bob pw2'' @
     line ''ACC ACC1000 IND 1 alice 90.00 9.09 0.00''"






text \<open>The ledger \<open>alice_db\<close> with NaN as the USD balance, and its store file.\<close>

definition nan_db :: DB where
  "nan_db =
     \<lparr>users = [\<lparr>username = ''alice'', password = ''pw1''\<rparr>,
               \<lparr>username = ''bob'', password = ''pw2''\<rparr>],
      accounts = [\<lparr>acc_id = ''ACC1000'', isJoint = False, owners = [''alice''],
                   bal = Bal NaN (Fin 0) (Fin 0)\<rparr>]\<rparr>"

definition nan_store :: string where
  "nan_store =
     line ''USER alice pw1'' @
     line ''USER bob pw2'' @
     line ''ACC ACC1000 IND 1 alice nan 0.00 0.00''"

text \<open>
  A joint account of three owners with names of 31 characters, holding
  \<^verbatim>\<open>1e307\<close> in each currency: its store file as a hand could write it, the ledger
  read from it, and the ledger read back after that one has been saved.
  \<open>big_amount\<close> is the double \<^verbatim>\<open>1e307\<close>, \<open>big_digits\<close> its 307 decimal digits,
  \<open>cut_digits\<close> the first 285 of them and \<open>cut_amount\<close> the double nearest to the
  number they spell.
\<close>

definition big_amount :: rat where
  "big_amount = 8016673440035891 * 2 ^ 967"

definition cut_amount :: rat where
  "cut_amount = 7571533991467358 * 2 ^ 894"

definition big_digits :: string where
  "big_digits =
     ''9999999999999999860310597602564577717002641838126363875249660735883565852672743849064846414228960666786379280392654615393353172850252103336275952370615397010730691664689375178569039851073146339641623266071126720011020169553304018596457812688561947201171488461172921822139066929851282122002676667750021070848''"

definition cut_digits :: string where
  "cut_digits =
     ''999999999999999986031059760256457771700264183812636387524966073588356585267274384906484641422896066678637928039265461539335317285025210333627595237061539701073069166468937517856903985107314633964162326607112672001102016955330401859645781268856194720117148846117292182213906692985128212''"

definition wide_head :: string where
  "wide_head =
     ''ACC ACC1000 JOINT 3 aliceaaaaaaaaaaaaaaaaaaaaaaaaaa,bobbybbbbbbbbbbbbbbbbbbbbbbbbbb,carolcccccccccccccccccccccccccc''"

definition wide_store :: string where
  "wide_store = line (wide_head @ '' 1e307 1e307 1e307'')"

definition wide_db :: DB where
  "wide_db =
     \<lparr>users = [],
      accounts = [\<lparr>acc_id = ''ACC1000'', isJoint = True,
                   owners = [''aliceaaaaaaaaaaaaaaaaaaaaaaaaaa'',
                             ''bobbybbbbbbbbbbbbbbbbbbbbbbbbbb'',
                             ''carolcccccccccccccccccccccccccc''],
                   bal = Bal (Fin big_amount) (Fin big_amount) (Fin big_amount)\<rparr>]\<rparr>"

definition wide_db_reloaded :: DB where
  "wide_db_reloaded =
     \<lparr>users = [],
      accounts = [\<lparr>acc_id = ''ACC1000'', isJoint = True,
                   owners = [''aliceaaaaaaaaaaaaaaaaaaaaaaaaaa'',
                             ''bobbybbbbbbbbbbbbbbbbbbbbbbbbbb'',
                             ''carolcccccccccccccccccccccccccc''],
                   bal = Bal (Fin big_amount) (Fin big_amount) (Fin cut_amount)\<rparr>]\<rparr>"

text \<open>The first 1023 characters of the line that \<^verbatim>\<open>db_save_locked\<close> writes for it.\<close>

definition wide_chunk :: string where
  "wide_chunk =
     wide_head @ '' '' @ big_digits @ ''.00 '' @ big_digits @ ''.00 '' @ cut_digits"

section \<open>Rounding to a double\<close>

lemma bit_length_bounds:
  "0 < n \<Longrightarrow> 2 ^ (bit_length n - 1) \<le> n \<and> n < 2 ^ bit_length n"
proof (induction n rule: bit_length.induct)
  case (1 n)
  show ?case
  proof (cases "n div 2 = 0")
    case True
    with 1(2) have "n = 1" by presburger
    then show ?thesis by (simp add: bit_length.simps)
  next
    case False
    then have pos: "0 < n div 2" by simp
    from 1(2) have n0: "n \<noteq> 0" by simp
    from 1(1)[OF n0 pos] have ih: "2 ^ (bit_length (n div 2) - 1) \<le> n div 2"
      "n div 2 < 2 ^ bit_length (n div 2)" by simp_all
    have bl: "bit_length n = Suc (bit_length (n div 2))"
      using n0 by (subst bit_length.simps) simp
    have blpos: "0 < bit_length (n div 2)"
      using pos by (subst bit_length.simps) simp
    then obtain k where k: "bit_length (n div 2) = Suc k"
      by (cases "bit_length (n div 2)") auto
    from ih k have a: "2 ^ k \<le> n div 2" "n div 2 < 2 * 2 ^ k" by simp_all
    then have "2 * 2 ^ k \<le> n" "n < 2 * (2 * 2 ^ k)" by presburger+
    then show ?thesis by (simp add: bl k)
  qed
qed

lemma binade_bounds:
  assumes "q \<noteq> 0"
  shows "2 powi binade q \<le> \<bar>q\<bar>" and "\<bar>q\<bar> < 2 powi (binade q + 1)"
proof -
  obtain a b where ab: "quotient_of q = (a, b)" by (cases "quotient_of q")
  then have b: "0 < b" and q: "q = of_int a / of_int b"
    by (auto simp: quotient_of_denom_pos quotient_of_div)
  from assms q have a: "a \<noteq> 0" by auto
  define la where "la = bit_length (nat \<bar>a\<bar>)"
  define lb where "lb = bit_length (nat b)"
  have A: "2 ^ (la - 1) \<le> nat \<bar>a\<bar>" "nat \<bar>a\<bar> < 2 ^ la"
    using bit_length_bounds[of "nat \<bar>a\<bar>"] a by (simp_all add: la_def)
  have B: "2 ^ (lb - 1) \<le> nat b" "nat b < 2 ^ lb"
    using bit_length_bounds[of "nat b"] b by (simp_all add: lb_def)
  have la: "0 < la" using A(2) a by (cases la) auto
  have lb: "0 < lb" using B(2) b by (cases lb) auto
  have "\<bar>q\<bar> = \<bar>of_int a\<bar> / \<bar>of_int b\<bar>"
    by (simp add: q)
  also have "\<dots> = of_int \<bar>a\<bar> / of_int b"
    using b by simp
  also have "\<dots> = of_nat (nat \<bar>a\<bar>) / of_nat (nat b)"
    using b by simp
  finally have absq: "\<bar>q\<bar> = of_nat (nat \<bar>a\<bar>) / of_nat (nat b)" .
  have Ar: "(2::rat) ^ (la - 1) \<le> of_nat (nat \<bar>a\<bar>)" "(of_nat (nat \<bar>a\<bar>) :: rat) < 2 ^ la"
    using A by (metis of_nat_le_iff of_nat_numeral of_nat_power,
        metis of_nat_less_iff of_nat_numeral of_nat_power)
  have Br: "(2::rat) ^ (lb - 1) \<le> of_nat (nat b)" "(of_nat (nat b) :: rat) < 2 ^ lb"
    using B by (metis of_nat_le_iff of_nat_numeral of_nat_power,
        metis of_nat_less_iff of_nat_numeral of_nat_power)
  have bpos: "(0::rat) < of_nat (nat b)" using b by simp
  define k where "k = int la - int lb"
  have up: "\<bar>q\<bar> < 2 powi (k + 1)"
  proof -
    have "\<bar>q\<bar> < 2 ^ la / 2 ^ (lb - 1)"
      unfolding absq by (rule frac_less) (use Ar(2) Br(1) in simp_all)
    also have "\<dots> = 2 powi (int la - int (lb - 1))"
      by (simp add: power_int_diff)
    also have "int la - int (lb - 1) = k + 1" using lb by (simp add: k_def)
    finally show ?thesis .
  qed
  have low: "2 powi (k - 1) \<le> \<bar>q\<bar>"
  proof -
    have "(2::rat) ^ (la - 1) / 2 ^ lb \<le> \<bar>q\<bar>"
      unfolding absq by (rule frac_le) (use Ar(1) Br(2) bpos in simp_all)
    moreover have "(2::rat) ^ (la - 1) / 2 ^ lb = 2 powi (int (la - 1) - int lb)"
      by (simp add: power_int_diff)
    moreover have "int (la - 1) - int lb = k - 1" using la by (simp add: k_def)
    ultimately show ?thesis by simp
  qed
  have bin: "binade q = (if 2 powi k \<le> \<bar>q\<bar> then k else k - 1)"
    by (simp add: binade_def ab la_def lb_def k_def Let_def)
  show "2 powi binade q \<le> \<bar>q\<bar>" using low by (simp add: bin)
  show "\<bar>q\<bar> < 2 powi (binade q + 1)" using up by (auto simp: bin)
qed

lemma binade_unique:
  assumes "2 powi e \<le> \<bar>q\<bar>" "\<bar>q\<bar> < 2 powi (e + 1)"
  shows "binade q = e"
proof -
  have "(0::rat) < 2 powi e" by simp
  with assms(1) have "0 < \<bar>q\<bar>" by linarith
  then have q: "q \<noteq> 0" by simp
  note b = binade_bounds[OF q]
  have "(2::rat) powi e < 2 powi (binade q + 1)" using assms(1) b(2) by linarith
  then have 1: "e < binade q + 1"
    using power_int_increasing[of "binade q + 1" e "2::rat"]
    by (cases "e < binade q + 1") auto
  have "(2::rat) powi binade q < 2 powi (e + 1)" using assms(2) b(1) by linarith
  then have 2: "binade q < e + 1"
    using power_int_increasing[of "e + 1" "binade q" "2::rat"]
    by (cases "binade q < e + 1") auto
  from 1 2 show ?thesis by linarith
qed

lemma round_half_even_eqI:
  assumes "\<bar>x - of_int m\<bar> < 1 / 2"
  shows "round_half_even x = m"
proof -
  define f where "f = \<lfloor>x\<rfloor>"
  have f: "of_int f \<le> x" "x < of_int f + 1"
    using floor_correct[of x] by (simp_all add: f_def)
  from assms have m: "of_int m < x + 1 / 2" "x - 1 / 2 < of_int m" by linarith+
  show ?thesis
  proof (cases "x - of_int f < 1 / 2")
    case True
    have "(of_int m :: rat) < of_int f + 1" using m(1) True by linarith
    moreover have "(of_int f :: rat) - 1 < of_int m" using m(2) f(1) by linarith
    ultimately have "m < f + 1" "f - 1 < m"
      by (metis of_int_1 of_int_add of_int_less_iff,
          metis of_int_1 of_int_diff of_int_less_iff)
    then have "m = f" by linarith
    then show ?thesis using True by (simp add: round_half_even_def f_def Let_def)
  next
    case False
    have ne: "x - of_int f \<noteq> 1 / 2"
    proof
      assume h: "x - of_int f = 1 / 2"
      then have "(of_int f :: rat) < of_int m" "(of_int m :: rat) < of_int f + 1"
        using m by linarith+
      then have "f < m" "m < f + 1"
        by (metis of_int_less_iff, metis of_int_1 of_int_add of_int_less_iff)
      then show False by linarith
    qed
    with False have gt: "1 / 2 < x - of_int f" by linarith
    have "(of_int f :: rat) < of_int m" using m(2) gt by linarith
    moreover have "(of_int m :: rat) < of_int f + 2" using m(1) f(2) by linarith
    ultimately have "f < m" "m < f + 2"
      by (metis of_int_less_iff, metis of_int_numeral of_int_add of_int_less_iff)
    then have "m = f + 1" by linarith
    then show ?thesis using False gt by (simp add: round_half_even_def f_def Let_def)
  qed
qed

lemma to_double_eqI:
  assumes q: "0 < q"
    and lo: "2 powi (p + 52) \<le> q" and hi: "q < 2 powi (p + 53)"
    and p: "- 1074 \<le> p" "p \<le> 970"
    and m: "\<bar>q / 2 powi p - of_int m\<bar> < 1 / 2"
  shows "to_double q = Fin (of_int m * 2 powi p)"
proof -
  have aq: "\<bar>q\<bar> = q" using q by simp
  have "binade q = p + 52"
    by (rule binade_unique)
      (use lo hi aq in \<open>simp_all add: add.commute add.left_commute add.assoc\<close>)
  then have pp: "max (binade q - 52) (- 1074) = p" using p by simp
  have r: "round_half_even (q / 2 powi p) = m"
    using m by (intro round_half_even_eqI) simp
  have p2: "(0::rat) < 2 powi p" by simp
  have "q / 2 powi p < 2 powi (p + 53) / 2 powi p"
    using hi p2 by (simp add: divide_strict_right_mono)
  also have "\<dots> = 2 ^ 53" by (simp add: power_int_add)
  finally have "(of_int m :: rat) < 2 ^ 53 + 1 / 2" using m by linarith
  then have "(of_int m :: rat) < of_int (2 ^ 53 + 1)" by simp
  then have "m < 2 ^ 53 + 1" by (simp only: of_int_less_iff)
  then have "m \<le> 2 ^ 53" by simp
  then have "(of_int m :: rat) \<le> 2 ^ 53"
    by (metis of_int_le_iff of_int_numeral of_int_power)
  then have "(of_int m :: rat) * 2 powi p \<le> 2 ^ 53 * 2 powi p"
    using p2 by (simp add: mult_right_mono)
  also have "\<dots> = 2 powi (p + 53)" by (simp add: power_int_add mult.commute)
  also have "\<dots> < 2 powi 1024"
    by (rule power_int_strict_increasing) (use p in simp_all)
  finally have no: "\<not> 2 powi 1024 \<le> (of_int m :: rat) * 2 powi p" by simp
  from q have "q \<noteq> 0" by simp
  then show ?thesis
    using q no unfolding to_double_def pp Let_def aq r by simp
qed

lemma to_double_small:
  assumes q: "0 < q"
    and lo: "2 ^ 52 \<le> q * 2 ^ k" and hi: "q * 2 ^ k < 2 ^ 53"
    and k: "k \<le> 1074"
    and m: "\<bar>q * 2 ^ k - of_int m\<bar> < 1 / 2"
  shows "to_double q = Fin (of_int m / 2 ^ k)"
proof -
  have e: "(2::rat) powi (- int k) = 1 / 2 ^ k"
    by (simp add: power_int_minus_divide)
  have e1: "(2::rat) powi (- int k + 52) = 2 ^ 52 / 2 ^ k"
    using power_int_diff[of "2::rat" 52 "int k"] by simp
  have e2: "(2::rat) powi (- int k + 53) = 2 ^ 53 / 2 ^ k"
    using power_int_diff[of "2::rat" 53 "int k"] by simp
  have "to_double q = Fin (of_int m * 2 powi (- int k))"
  proof (rule to_double_eqI[OF q])
    show "2 powi (- int k + 52) \<le> q" unfolding e1 using lo by (simp add: field_simps)
    show "q < 2 powi (- int k + 53)" unfolding e2 using hi by (simp add: field_simps)
    show "- 1074 \<le> - int k" "- int k \<le> 970" using k by simp_all
    show "\<bar>q / 2 powi (- int k) - of_int m\<bar> < 1 / 2" using m by (simp add: e)
  qed
  then show ?thesis by (simp add: e)
qed

lemma to_double_large:
  assumes q: "0 < q"
    and lo: "2 ^ 52 * 2 ^ k \<le> q" and hi: "q < 2 ^ 53 * 2 ^ k"
    and k: "k \<le> 970"
    and m: "\<bar>q / 2 ^ k - of_int m\<bar> < 1 / 2"
  shows "to_double q = Fin (of_int m * 2 ^ k)"
proof -
  have "to_double q = Fin (of_int m * 2 powi (int k))"
  proof (rule to_double_eqI[OF q])
    show "2 powi (int k + 52) \<le> q" using lo by (simp add: power_int_add mult.commute)
    show "q < 2 powi (int k + 53)" using hi by (simp add: power_int_add mult.commute)
    show "- 1074 \<le> int k" "int k \<le> 970" using k by simp_all
    show "\<bar>q / 2 powi (int k) - of_int m\<bar> < 1 / 2" using m by simp
  qed
  then show ?thesis by simp
qed


lemma is_nan_simps [simp]:
  "is_nan (Fin x) = False" "is_nan NegZero = False" "is_nan PInf = False"
  "is_nan MInf = False" "is_nan NaN = True" "is_nan NegNaN = True"
  by (simp_all add: is_nan_def)

lemma is_inf_simps [simp]:
  "is_inf (Fin x) = False" "is_inf NegZero = False" "is_inf PInf = True"
  "is_inf MInf = True" "is_inf NaN = False" "is_inf NegNaN = False"
  by (simp_all add: is_inf_def)

lemma is_zero_simps [simp]:
  "is_zero (Fin x) = (x = 0)" "is_zero NegZero = True" "is_zero PInf = False"
  "is_zero MInf = False" "is_zero NaN = False" "is_zero NegNaN = False"
  by (simp_all add: is_zero_def)

lemma fmul_Fin [simp]:
  "x \<noteq> 0 \<Longrightarrow> y \<noteq> 0 \<Longrightarrow> fmul (Fin x) (Fin y) = to_double (x * y)"
  by (simp add: fmul_def)

lemma fdiv_Fin [simp]:
  "x \<noteq> 0 \<Longrightarrow> y \<noteq> 0 \<Longrightarrow> fdiv (Fin x) (Fin y) = to_double (x / y)"
  by (simp add: fdiv_def)

lemma fsub_Fin [simp]:
  "y \<noteq> 0 \<Longrightarrow> fsub (Fin x) (Fin y) = to_double (x - y)"
  by (simp add: fsub_def)
section \<open>Evaluating the printing functions\<close>

lemma dec_nat_small: "n < 10 \<Longrightarrow> dec_nat n = [digit n]"
  by (subst dec_nat.simps) simp

lemma dec_nat_big: "10 \<le> n \<Longrightarrow> dec_nat n = dec_nat (n div 10) @ [digit (n mod 10)]"
  by (subst dec_nat.simps) simp

lemma round_half_even_tie:
  assumes "x = of_int f + 1 / 2"
  shows "round_half_even x = (if even f then f else f + 1)"
proof -
  have "of_int f \<le> x" "x < of_int f + 1" using assms by simp_all
  then have "\<lfloor>x\<rfloor> = f" by linarith
  then show ?thesis using assms by (simp add: round_half_even_def Let_def)
qed

lemma round_half_even_int: "round_half_even (of_int n) = n"
  using round_half_even_eqI[of "of_int n" n] by simp

lemma replicate_numeral: "replicate (numeral k) x = x # replicate (pred_numeral k) x"
  by (simp add: numeral_eq_Suc)

lemmas print_simps =
  dec_nat_small dec_nat_big digit_def fmt_f_def fmt_d_def replicate_numeral

section \<open>The rate table, evaluated\<close>

lemma eur_to_usd_val: "eur_to_usd = Fin (2476979795053773 / 2251799813685248)"
  unfolding eur_to_usd_def
  using to_double_small[of "110 / 100" 52 4953959590107546] by simp

lemma eur_to_gbp_val: "eur_to_gbp = Fin (7656119366529843 / 9007199254740992)"
  unfolding eur_to_gbp_def
  using to_double_small[of "85 / 100" 53 7656119366529843] by simp

lemma to_double_one: "to_double 1 = Fin 1"
  using to_double_small[of 1 52 4503599627370496] by simp

lemma usd_in_eur_val: "val_in_eur CUR_USD = Fin (8188362958855447 / 9007199254740992)"
  unfolding val_in_eur_def eur_to_usd_val
  using to_double_small[of "2251799813685248 / 2476979795053773" 53 8188362958855447]
  by simp

lemma gbp_in_eur_val: "val_in_eur CUR_GBP = Fin (5298352502788819 / 4503599627370496)"
  unfolding val_in_eur_def eur_to_gbp_val
  using to_double_small[of "9007199254740992 / 7656119366529843" 52 5298352502788819]
  by simp

lemma eur_in_eur_val: "val_in_eur CUR_EUR = Fin 1"
  by (simp add: val_in_eur_def)

lemma rate_usd_eur: "rate CUR_USD CUR_EUR = Fin (8188362958855447 / 9007199254740992)"
  by (simp add: rate_def usd_in_eur_val)

lemma rate_gbp_eur: "rate CUR_GBP CUR_EUR = Fin (5298352502788819 / 4503599627370496)"
  by (simp add: rate_def gbp_in_eur_val)

lemma rate_eur_usd: "rate CUR_EUR CUR_USD = Fin (2476979795053773 / 2251799813685248)"
  unfolding rate_def eur_in_eur_val eur_to_usd_val
  using to_double_small[of "2476979795053773 / 2251799813685248" 52 4953959590107546]
  by simp

lemma rate_eur_gbp: "rate CUR_EUR CUR_GBP = Fin (7656119366529843 / 9007199254740992)"
  unfolding rate_def eur_in_eur_val eur_to_gbp_val
  using to_double_small[of "7656119366529843 / 9007199254740992" 53 7656119366529843]
  by simp

lemma usd_eur_gbp:
  "fmul (Fin (8188362958855447 / 9007199254740992))
        (Fin (7656119366529843 / 9007199254740992)) =
     Fin (3480054257513565 / 4503599627370496)"
  using to_double_small[of "(8188362958855447 / 9007199254740992) *
      (7656119366529843 / 9007199254740992)" 53 6960108515027130]
  by simp

lemma gbp_eur_usd:
  "fmul (Fin (5298352502788819 / 4503599627370496))
        (Fin (2476979795053773 / 2251799813685248)) =
     Fin (5828187753067701 / 4503599627370496)"
  using to_double_small[of "(5298352502788819 / 4503599627370496) *
      (2476979795053773 / 2251799813685248)" 52 5828187753067701]
  by simp

lemma rate_usd_gbp: "rate CUR_USD CUR_GBP = Fin (3480054257513565 / 4503599627370496)"
  by (simp add: rate_def usd_in_eur_val eur_to_gbp_val usd_eur_gbp del: fmul_Fin)

lemma rate_gbp_usd: "rate CUR_GBP CUR_USD = Fin (5828187753067701 / 4503599627370496)"
  by (simp add: rate_def gbp_in_eur_val eur_to_usd_val gbp_eur_usd del: fmul_Fin)

lemma rate_same: "rate a a = Fin 1"
  by (simp add: rate_def)

lemma usd_eur_usd:
  "fmul (Fin (8188362958855447 / 9007199254740992))
        (Fin (2476979795053773 / 2251799813685248)) = Fin 1"
  using to_double_small[of "(8188362958855447 / 9007199254740992) *
      (2476979795053773 / 2251799813685248)" 52 4503599627370496]
  by simp

lemma gbp_eur_gbp:
  "fmul (Fin (5298352502788819 / 4503599627370496))
        (Fin (7656119366529843 / 9007199254740992)) = Fin 1"
  using to_double_small[of "(5298352502788819 / 4503599627370496) *
      (7656119366529843 / 9007199254740992)" 52 4503599627370496]
  by simp

lemma usd_gbp_usd:
  "fmul (Fin (3480054257513565 / 4503599627370496))
        (Fin (5828187753067701 / 4503599627370496)) = Fin 1"
  using to_double_small[of "(3480054257513565 / 4503599627370496) *
      (5828187753067701 / 4503599627370496)" 52 4503599627370496]
  by simp

lemma fmul_commute: "fmul (Fin x) (Fin y) = fmul (Fin y) (Fin x)"
  by (auto simp add: fmul_def mult.commute)

lemma fmul_one_right:
  "fmul (Fin (8188362958855447 / 9007199254740992)) (Fin 1) =
     Fin (8188362958855447 / 9007199254740992)"
  "fmul (Fin (5298352502788819 / 4503599627370496)) (Fin 1) =
     Fin (5298352502788819 / 4503599627370496)"
  using to_double_small[of "8188362958855447 / 9007199254740992" 53 8188362958855447]
    to_double_small[of "5298352502788819 / 4503599627370496" 52 5298352502788819]
  by simp_all

lemma fmul_one_left:
  "fmul (Fin 1) (Fin (2476979795053773 / 2251799813685248)) =
     Fin (2476979795053773 / 2251799813685248)"
  "fmul (Fin 1) (Fin (7656119366529843 / 9007199254740992)) =
     Fin (7656119366529843 / 9007199254740992)"
  using to_double_small[of "2476979795053773 / 2251799813685248" 52 4953959590107546]
    to_double_small[of "7656119366529843 / 9007199254740992" 53 7656119366529843]
  by simp_all

lemmas rate_table =
  rate_same rate_usd_eur rate_gbp_eur rate_eur_usd rate_eur_gbp rate_usd_gbp rate_gbp_usd

text \<open>
  C2. The rate function is a function of its two arguments alone, built from two
  fixed constants, and for all currencies \<open>a\<close> and \<open>b\<close>: \<open>rate a a = 1\<close>;
  \<open>rate a b\<close> is the product, in double arithmetic, of \<open>rate a EUR\<close> and
  \<open>rate EUR b\<close>; and the product of \<open>rate a b\<close> and \<open>rate b a\<close> is the double
  \<open>1\<close> itself, hence equal to 1 within any display rounding.
\<close>

theorem rate_pivot_and_inverse:
  "rate a a = Fin 1 \<and>
   rate a b = fmul (rate a CUR_EUR) (rate CUR_EUR b) \<and>
   fmul (rate a b) (rate b a) = Fin 1 \<and>
   fmt_f 6 (fmul (rate a b) (rate b a)) = ''1.000000''"
proof -
  have one: "fmul (Fin 1) (Fin 1) = Fin 1" by (simp add: to_double_one)
  have piv: "rate a b = fmul (rate a CUR_EUR) (rate CUR_EUR b)"
    by (cases a; cases b)
      (simp_all only: rate_table usd_eur_usd gbp_eur_gbp usd_eur_gbp gbp_eur_usd
        fmul_one_right fmul_one_left one)
  have inv: "fmul (rate a b) (rate b a) = Fin 1"
    by (cases a; cases b)
      (simp_all only: rate_table usd_eur_usd gbp_eur_gbp usd_gbp_usd one
        fmul_commute[of "2476979795053773 / 2251799813685248"]
        fmul_commute[of "7656119366529843 / 9007199254740992"]
        fmul_commute[of "5828187753067701 / 4503599627370496"])
  have pr: "fmt_f 6 (Fin 1) = ''1.000000''"
    using round_half_even_int[of 1000000] by (simp add: print_simps)
  show ?thesis using piv inv pr by (simp add: rate_same)
qed

section \<open>Looking up users and accounts\<close>

lemma first_index_Some:
  "first_index P xs = Some i \<Longrightarrow> i < length xs \<and> P (xs ! i) \<and> (\<forall>j<i. \<not> P (xs ! j))"
proof (induction xs arbitrary: i)
  case Nil
  then show ?case by simp
next
  case (Cons x xs)
  show ?case
  proof (cases "P x")
    case True
    with Cons.prems show ?thesis by simp
  next
    case False
    with Cons.prems obtain k where k: "first_index P xs = Some k" "i = Suc k"
      by auto
    from Cons.IH[OF k(1)] False k(2) show ?thesis
      by (auto simp: nth_Cons split: nat.splits)
  qed
qed

lemma first_index_None: "first_index P xs = None \<longleftrightarrow> (\<forall>x\<in>set xs. \<not> P x)"
  by (induction xs) auto


lemma account_index_None:
  "account_index db accid = None \<longleftrightarrow> accid \<notin> acc_id ` set (accounts db)"
  unfolding account_index_def first_index_None by auto

lemma user_index_Some:
  "user_index db u = Some i \<Longrightarrow> i < length (users db) \<and> username (users db ! i) = u"
  unfolding user_index_def by (drule first_index_Some) simp

lemma user_index_None:
  "user_index db u = None \<longleftrightarrow> u \<notin> username ` set (users db)"
  unfolding user_index_def first_index_None by auto


lemma reply_ERR: "reply (''ERR '' @ msg) = ''ERR '' @ msg @ [CHR 0x0A] @ ''END'' @ [CHR 0x0A]"
  by (simp add: reply_def line_def)

section \<open>EXCHANGE\<close>




lemma alice_db_lookup:
  "account_index alice_db ''ACC1000'' = Some 0"
  "user_index alice_db ''alice'' = Some 0"
  "user_index alice_db ''bob'' = Some 1"
  "parse_currency ''USD'' = Some CUR_USD"
  "parse_currency ''EUR'' = Some CUR_EUR"
  "parse_currency ''GBP'' = Some CUR_GBP"
  by (simp_all add: alice_db_def account_index_def user_index_def parse_currency_def
      CUR_NAMES_def)

lemma exchange_ten_usd_from: "fsub (Fin 100) (Fin 10) = Fin 90"
  using to_double_small[of 90 46 6333186975989760] by (simp add: fsub_def)

lemma exchange_ten_usd_converted:
  "fmul (Fin 10) (rate CUR_USD CUR_EUR) = Fin (2558863424642327 / 281474976710656)"
  using to_double_small[of "10 * (8188362958855447 / 9007199254740992)" 49 5117726849284654]
  by (simp add: rate_usd_eur)

lemma to_double_converted:
  "to_double (2558863424642327 / 281474976710656) =
     Fin (2558863424642327 / 281474976710656)"
  using to_double_small[of "2558863424642327 / 281474976710656" 49 5117726849284654]
  by simp

lemma exchange_ten_usd_to:
  "fadd (Fin 0) (Fin (2558863424642327 / 281474976710656)) =
     Fin (2558863424642327 / 281474976710656)"
  by (simp add: to_double_converted)

lemmas exchange_ten_usd =
  exchange_ten_usd_from exchange_ten_usd_converted exchange_ten_usd_to to_double_converted

lemma fmt_ten: "fmt_f 2 (Fin 10) = ''10.00''"
  using round_half_even_int[of 1000] by (simp add: print_simps)

lemma fmt_converted: "fmt_f 2 (Fin (2558863424642327 / 281474976710656)) = ''9.09''"
  using round_half_even_eqI[of "2558863424642327 / 281474976710656 * 100" 909]
  by (simp add: print_simps)

lemma fmt_rate_usd_eur: "fmt_f 6 (rate CUR_USD CUR_EUR) = ''0.909091''"
  using round_half_even_eqI[of "8188362958855447 / 9007199254740992 * 1000000" 909091]
  by (simp add: print_simps rate_usd_eur)

lemmas exchange_ten_usd_text = fmt_ten fmt_converted fmt_rate_usd_eur

lemma exchange_ten_usd_run:
  "cmd_exchange alice_db ''alice'' ''ACC1000'' ''USD'' ''EUR'' (Fin 10) =
     (reply ''OK Exchanged 10.00 USD -> 9.09 EUR (rate=0.909091)'',
      Some alice_db_exchanged)"
  unfolding cmd_exchange_def alice_db_lookup
  by (simp add: exchange_ten_usd exchange_ten_usd_text alice_db_def alice_db_exchanged_def
      is_owner_def CUR_NAMES_def snprintf_def reply_def line_def)

section \<open>Commands that fail\<close>

lemma take4_reply: "take 4 (reply (c1 # c2 # c3 # c4 # s)) = [c1, c2, c3, c4]"
  by (simp add: reply_def line_def)

lemma take4_snprintf: "3 < n - 1 \<Longrightarrow> take 4 (snprintf n s) = take 4 s"
  by (simp add: snprintf_def min_def)

lemma cmd_register_cases:
  "cmd_register db u p = (reply ''ERR User already exists'', None) \<or>
   cmd_register db u p = (reply ''ERR User limit reached'', None) \<or>
   cmd_register db u p = (reply ''OK Registered'',
     Some (db\<lparr>users := users db @ [\<lparr>username = u, password = p\<rparr>]\<rparr>))"
  by (simp add: cmd_register_def)

lemma cmd_register_error: "take 4 (fst (cmd_register db u p)) = ''ERR '' \<Longrightarrow>
  snd (cmd_register db u p) = None"
  using cmd_register_cases[of db u p] by (auto simp: take4_reply)

lemma cmd_create_account_error:
  "take 4 (fst (cmd_create_account db rands user type csv)) = ''ERR '' \<Longrightarrow>
   snd (cmd_create_account db rands user type csv) = None"
  by (auto simp: cmd_create_account_def take4_reply take4_snprintf
      split: if_splits option.splits)

lemma cmd_deposit_withdraw_error:
  "take 4 (fst (cmd_deposit_withdraw db user op accid curS amount)) = ''ERR '' \<Longrightarrow>
   snd (cmd_deposit_withdraw db user op accid curS amount) = None"
  by (auto simp: cmd_deposit_withdraw_def take4_reply Let_def
      split: if_splits option.splits)

lemma cmd_exchange_error:
  "take 4 (fst (cmd_exchange db user accid fromS toS amount)) = ''ERR '' \<Longrightarrow>
   snd (cmd_exchange db user accid fromS toS amount) = None"
  by (auto simp: cmd_exchange_def take4_reply take4_snprintf Let_def
      split: if_splits option.splits)

lemma locked_not_saved:
  "snd (cmd (db_load_locked store)) = None \<Longrightarrow>
   locked cmd store = (fst (cmd (db_load_locked store)), store)"
  by (cases "cmd (db_load_locked store)") (simp add: locked_def)

lemma withdraw_insufficient:
  assumes "account_index db accid = Some idx" "parse_currency curS = Some cur"
    "flt (bal_get (bal (accounts db ! idx)) cur) amount"
  shows "take 4 (fst (cmd_deposit_withdraw db user ''WITHDRAW'' accid curS amount)) = ''ERR '' \<and>
         snd (cmd_deposit_withdraw db user ''WITHDRAW'' accid curS amount) = None"
  using assms by (simp add: cmd_deposit_withdraw_def take4_reply Let_def)

lemma exchange_insufficient:
  assumes "account_index db accid = Some idx" "parse_currency curS = Some cur"
    "flt (bal_get (bal (accounts db ! idx)) cur) amount"
  shows "take 4 (fst (cmd_exchange db user accid curS toS amount)) = ''ERR '' \<and>
         snd (cmd_exchange db user accid curS toS amount) = None"
  using assms by (simp add: cmd_exchange_def take4_reply Let_def split: option.splits)

text \<open>
  C4. In a snapshot where \<open>accid\<close> names the account \<open>idx\<close> and \<open>curS\<close> the currency
  \<open>cur\<close>, a WITHDRAW or an EXCHANGE from \<open>cur\<close> whose amount exceeds the balance
  (the comparison \<^verbatim>\<open>bal < amount\<close> of the program) answers with an error and saves
  nothing; for a logged-in owner and a valid request the error is
  \<^verbatim>\<open>ERR Insufficient funds\<close>. More generally each mutating command that answers
  with an error returns without saving, and a command that does not save leaves
  the store file as it was.
\<close>

theorem failures_save_nothing:
  "(account_index db accid = Some idx \<and> parse_currency curS = Some cur \<and>
    flt (bal_get (bal (accounts db ! idx)) cur) amount \<longrightarrow>
      take 4 (fst (cmd_deposit_withdraw db user ''WITHDRAW'' accid curS amount)) = ''ERR '' \<and>
      snd (cmd_deposit_withdraw db user ''WITHDRAW'' accid curS amount) = None \<and>
      take 4 (fst (cmd_exchange db user accid curS toS amount)) = ''ERR '' \<and>
      snd (cmd_exchange db user accid curS toS amount) = None \<and>
      (user \<noteq> [] \<and> \<not> fle amount (Fin 0) \<and> is_owner (accounts db ! idx) user \<longrightarrow>
         cmd_deposit_withdraw db user ''WITHDRAW'' accid curS amount =
           (reply ''ERR Insufficient funds'', None) \<and>
         (\<forall>to. parse_currency toS = Some to \<and> to \<noteq> cur \<longrightarrow>
            cmd_exchange db user accid curS toS amount =
              (reply ''ERR Insufficient funds'', None)))) \<and>
   (\<forall>r \<in> {cmd_register db u p,
            cmd_create_account db rands user type csv,
            cmd_deposit_withdraw db user op accid curS amount,
            cmd_exchange db user accid fromS toS amount}.
      take 4 (fst r) = ''ERR '' \<longrightarrow> snd r = None) \<and>
   (\<forall>cmd store. snd (cmd (db_load_locked store)) = None \<longrightarrow>
      snd (locked cmd store) = store)"
proof (intro conjI impI)
  assume h: "account_index db accid = Some idx \<and> parse_currency curS = Some cur \<and>
    flt (bal_get (bal (accounts db ! idx)) cur) amount"
  then show "take 4 (fst (cmd_deposit_withdraw db user ''WITHDRAW'' accid curS amount)) = ''ERR ''"
    and "snd (cmd_deposit_withdraw db user ''WITHDRAW'' accid curS amount) = None"
    using withdraw_insufficient by blast+
  from h show "take 4 (fst (cmd_exchange db user accid curS toS amount)) = ''ERR ''"
    and "snd (cmd_exchange db user accid curS toS amount) = None"
    using exchange_insufficient by blast+
  assume o: "user \<noteq> [] \<and> \<not> fle amount (Fin 0) \<and> is_owner (accounts db ! idx) user"
  from h o show "cmd_deposit_withdraw db user ''WITHDRAW'' accid curS amount =
      (reply ''ERR Insufficient funds'', None)"
    by (simp add: cmd_deposit_withdraw_def Let_def)
  from h o show "\<forall>to. parse_currency toS = Some to \<and> to \<noteq> cur \<longrightarrow>
      cmd_exchange db user accid curS toS amount = (reply ''ERR Insufficient funds'', None)"
    by (simp add: cmd_exchange_def Let_def)
next
  show "\<forall>r \<in> {cmd_register db u p,
            cmd_create_account db rands user type csv,
            cmd_deposit_withdraw db user op accid curS amount,
            cmd_exchange db user accid fromS toS amount}.
      take 4 (fst r) = ''ERR '' \<longrightarrow> snd r = None"
    by (simp add: cmd_register_error cmd_create_account_error cmd_deposit_withdraw_error
        cmd_exchange_error)
next
  show "\<forall>cmd store. snd (cmd (db_load_locked store)) = None \<longrightarrow>
      snd (locked cmd store) = store"
    by (simp add: locked_not_saved)
qed

lemma alice_db_account:
  "accounts alice_db ! 0 =
     \<lparr>acc_id = ''ACC1000'', isJoint = False, owners = [''alice''],
      bal = Bal (Fin 100) (Fin 0) (Fin 0)\<rparr>"
  by (simp add: alice_db_def)

theorem failures_save_nothing_witness:
  "account_index alice_db ''ACC1000'' = Some 0 \<and>
   parse_currency ''USD'' = Some CUR_USD \<and>
   flt (bal_get (bal (accounts alice_db ! 0)) CUR_USD) (Fin 500) \<and>
   ''alice'' \<noteq> [] \<and> \<not> fle (Fin 500) (Fin 0) \<and> is_owner (accounts alice_db ! 0) ''alice'' \<and>
   parse_currency ''EUR'' = Some CUR_EUR \<and> CUR_EUR \<noteq> CUR_USD \<and>
   cmd_deposit_withdraw alice_db ''alice'' ''WITHDRAW'' ''ACC1000'' ''USD'' (Fin 500) =
     (reply ''ERR Insufficient funds'', None) \<and>
   cmd_exchange alice_db ''alice'' ''ACC1000'' ''USD'' ''EUR'' (Fin 500) =
     (reply ''ERR Insufficient funds'', None) \<and>
   take 4 (fst (cmd_register alice_db ''alice'' ''pw'')) = ''ERR '' \<and>
   snd (cmd_register alice_db ''alice'' ''pw'') = None"
  using failures_save_nothing[where db = alice_db and accid = "''ACC1000''" and idx = 0
      and curS = "''USD''" and cur = CUR_USD and amount = "Fin 500" and user = "''alice''"
      and toS = "''EUR''" and u = "''alice''" and p = "''pw''"]
  by (simp add: alice_db_lookup alice_db_account is_owner_def cmd_register_def take4_reply)

section \<open>Callers who are not owners\<close>

text \<open>
  C5, as the code has it. For a logged-in caller who is not an owner of the account
  that \<open>accid\<close> names, BALANCES answers \<^verbatim>\<open>ERR Not an owner\<close>; DEPOSIT, WITHDRAW
  and EXCHANGE answer with an error and save nothing, and their error is
  \<^verbatim>\<open>ERR Not an owner\<close> whenever the amount is accepted (not \<^verbatim>\<open><= 0\<close>) and the
  currency codes are known (and differ, for EXCHANGE): these checks come before the
  ownership check.
\<close>

theorem non_owner_rejected:
  assumes "user \<noteq> []"
    and "account_index db accid = Some idx"
    and "\<not> is_owner (accounts db ! idx) user"
  shows "cmd_balances db user accid = reply ''ERR Not an owner'' \<and>
         take 4 (fst (cmd_deposit_withdraw db user op accid curS amount)) = ''ERR '' \<and>
         snd (cmd_deposit_withdraw db user op accid curS amount) = None \<and>
         take 4 (fst (cmd_exchange db user accid fromS toS amount)) = ''ERR '' \<and>
         snd (cmd_exchange db user accid fromS toS amount) = None \<and>
         (\<not> fle amount (Fin 0) \<and> parse_currency curS \<noteq> None \<longrightarrow>
            cmd_deposit_withdraw db user op accid curS amount =
              (reply ''ERR Not an owner'', None)) \<and>
         (\<not> fle amount (Fin 0) \<and> parse_currency fromS \<noteq> None \<and>
          parse_currency toS \<noteq> None \<and> parse_currency fromS \<noteq> parse_currency toS \<longrightarrow>
            cmd_exchange db user accid fromS toS amount =
              (reply ''ERR Not an owner'', None))"
proof -
  have 1: "cmd_balances db user accid = reply ''ERR Not an owner''"
    using assms by (simp add: cmd_balances_def Let_def)
  have 2: "take 4 (fst (cmd_deposit_withdraw db user op accid curS amount)) = ''ERR '' \<and>
         snd (cmd_deposit_withdraw db user op accid curS amount) = None"
    using assms by (simp add: cmd_deposit_withdraw_def take4_reply Let_def split: option.splits)
  have 3: "take 4 (fst (cmd_exchange db user accid fromS toS amount)) = ''ERR '' \<and>
         snd (cmd_exchange db user accid fromS toS amount) = None"
    using assms by (simp add: cmd_exchange_def take4_reply Let_def split: option.splits)
  have 4: "\<not> fle amount (Fin 0) \<and> parse_currency curS \<noteq> None \<longrightarrow>
            cmd_deposit_withdraw db user op accid curS amount =
              (reply ''ERR Not an owner'', None)"
    using assms by (auto simp: cmd_deposit_withdraw_def Let_def)
  have 5: "\<not> fle amount (Fin 0) \<and> parse_currency fromS \<noteq> None \<and>
          parse_currency toS \<noteq> None \<and> parse_currency fromS \<noteq> parse_currency toS \<longrightarrow>
            cmd_exchange db user accid fromS toS amount =
              (reply ''ERR Not an owner'', None)"
    using assms by (auto simp: cmd_exchange_def Let_def)
  from 1 2 3 4 5 show ?thesis by blast
qed

theorem non_owner_rejected_witness:
  "''bob'' \<noteq> [] \<and> account_index alice_db ''ACC1000'' = Some 0 \<and>
   \<not> is_owner (accounts alice_db ! 0) ''bob'' \<and>
   \<not> fle (Fin 5) (Fin 0) \<and> parse_currency ''USD'' \<noteq> None \<and>
   parse_currency ''EUR'' \<noteq> None \<and> parse_currency ''USD'' \<noteq> parse_currency ''EUR'' \<and>
   cmd_balances alice_db ''bob'' ''ACC1000'' = reply ''ERR Not an owner'' \<and>
   cmd_deposit_withdraw alice_db ''bob'' ''DEPOSIT'' ''ACC1000'' ''USD'' (Fin 5) =
     (reply ''ERR Not an owner'', None) \<and>
   cmd_deposit_withdraw alice_db ''bob'' ''WITHDRAW'' ''ACC1000'' ''USD'' (Fin 5) =
     (reply ''ERR Not an owner'', None) \<and>
   cmd_exchange alice_db ''bob'' ''ACC1000'' ''USD'' ''EUR'' (Fin 5) =
     (reply ''ERR Not an owner'', None)"
proof -
  have h: "''bob'' \<noteq> []" "account_index alice_db ''ACC1000'' = Some 0"
    "\<not> is_owner (accounts alice_db ! 0) ''bob''"
    by (simp_all add: alice_db_lookup alice_db_account is_owner_def)
  show ?thesis
    using h non_owner_rejected[OF h, of "''DEPOSIT''" "''USD''" "Fin 5" "''USD''" "''EUR''"]
      non_owner_rejected[OF h, of "''WITHDRAW''" "''USD''" "Fin 5" "''USD''" "''EUR''"]
    by (simp add: alice_db_lookup)
qed

text \<open>
  The claim as written fails: bob, who does not own \<^verbatim>\<open>ACC1000\<close>, deposits the amount
  0 and gets the amount error, not the ownership error.
\<close>

theorem non_owner_other_error_counterexample:
  "''bob'' \<noteq> [] \<and> account_index alice_db ''ACC1000'' = Some 0 \<and>
   \<not> is_owner (accounts alice_db ! 0) ''bob'' \<and>
   cmd_deposit_withdraw alice_db ''bob'' ''DEPOSIT'' ''ACC1000'' ''USD'' (Fin 0) =
     (reply ''ERR amount must be > 0'', None) \<and>
   reply ''ERR amount must be > 0'' \<noteq> reply ''ERR Not an owner''"
  by (simp add: alice_db_lookup alice_db_account is_owner_def cmd_deposit_withdraw_def
      reply_def line_def)

section \<open>Account identifiers\<close>

lemma digit_isdigit: "d < 10 \<Longrightarrow> isdigit (digit d)"
proof -
  assume "d < 10"
  then have "d < length ''0123456789''" by simp
  then have "''0123456789'' ! d \<in> set ''0123456789''" by (rule nth_mem)
  then show ?thesis by (simp only: isdigit_def digit_def)
qed

lemma dec_nat_four:
  assumes "1000 \<le> n" "n < 10000"
  shows "dec_nat n =
    [digit (n div 1000), digit (n div 100 mod 10), digit (n div 10 mod 10), digit (n mod 10)]"
proof -
  have a: "dec_nat n = dec_nat (n div 10) @ [digit (n mod 10)]"
    using assms by (intro dec_nat_big) simp
  have b: "dec_nat (n div 10) = dec_nat (n div 100) @ [digit (n div 10 mod 10)]"
    using assms dec_nat_big[of "n div 10"] by (simp add: div_mult2_eq[symmetric])
  have c: "dec_nat (n div 100) = dec_nat (n div 1000) @ [digit (n div 100 mod 10)]"
    using assms dec_nat_big[of "n div 100"] by (simp add: div_mult2_eq[symmetric])
  have d: "dec_nat (n div 1000) = [digit (n div 1000)]"
    using assms by (intro dec_nat_small) simp
  show ?thesis by (simp add: a b c d)
qed

lemma candidate_format:
  "length (candidate r) = 7 \<and> take 3 (candidate r) = ''ACC'' \<and>
   (\<forall>c\<in>set (drop 3 (candidate r)). isdigit c)"
proof -
  define n where "n = 1000 + r mod 9000"
  have n: "1000 \<le> n" "n < 10000" by (simp_all add: n_def)
  have "fmt_d (int n) = dec_nat n" by (simp add: fmt_d_def)
  then have "candidate r = snprintf 32 (''ACC'' @ dec_nat n)"
    by (simp add: candidate_def n_def)
  then have c: "candidate r = ''ACC'' @ dec_nat n"
    using n by (simp add: snprintf_def dec_nat_four)
  have "n div 1000 < 10" "n div 100 mod 10 < 10" "n div 10 mod 10 < 10" "n mod 10 < 10"
    using n by simp_all
  then show ?thesis
    using n by (simp add: c dec_nat_four digit_isdigit)
qed

lemma gen_account_id_from_step:
  "gen_account_id_from db rands tries =
     (if tries < 10000
      then (if account_index db (candidate (rands tries)) = None
            then Some (candidate (rands tries))
            else gen_account_id_from db rands (Suc tries))
      else None)"
  by (subst gen_account_id_from.simps) (simp add: candidate_def Let_def)

lemma gen_account_id_from_None:
  "gen_account_id_from db rands t = None \<longleftrightarrow>
     (\<forall>k. t \<le> k \<and> k < 10000 \<longrightarrow> account_index db (candidate (rands k)) \<noteq> None)"
proof (induction db rands t rule: gen_account_id_from.induct)
  case (1 db rands tries)
  show ?case
  proof (cases "tries < 10000")
    case False
    then show ?thesis by (subst gen_account_id_from_step) auto
  next
    case True
    show ?thesis
    proof (cases "account_index db (candidate (rands tries)) = None")
      case free: True
      with True show ?thesis by (subst gen_account_id_from_step) auto
    next
      case taken: False
      have ih: "gen_account_id_from db rands (Suc tries) = None \<longleftrightarrow>
        (\<forall>k. Suc tries \<le> k \<and> k < 10000 \<longrightarrow> account_index db (candidate (rands k)) \<noteq> None)"
        using 1[OF True refl refl] taken by (simp add: candidate_def)
      have "(\<forall>k. tries \<le> k \<and> k < 10000 \<longrightarrow> account_index db (candidate (rands k)) \<noteq> None)
        \<longleftrightarrow> (\<forall>k. Suc tries \<le> k \<and> k < 10000 \<longrightarrow>
               account_index db (candidate (rands k)) \<noteq> None)"
        using taken by (metis Suc_leI le_neq_implies_less Suc_leD)
      then have eq: "(\<forall>k. tries \<le> k \<and> k < 10000 \<longrightarrow>
          account_index db (candidate (rands k)) \<noteq> None) =
        (gen_account_id_from db rands (Suc tries) = None)"
        using ih by simp
      have step: "gen_account_id_from db rands tries =
          gen_account_id_from db rands (Suc tries)"
        using True taken by (subst gen_account_id_from_step) auto
      show ?thesis by (simp only: step eq)
    qed
  qed
qed

lemma gen_account_id_from_Some:
  "gen_account_id_from db rands t = Some out \<Longrightarrow>
     \<exists>k. t \<le> k \<and> k < 10000 \<and> out = candidate (rands k) \<and>
         account_index db out = None \<and>
         (\<forall>j. t \<le> j \<and> j < k \<longrightarrow> account_index db (candidate (rands j)) \<noteq> None)"
proof (induction db rands t rule: gen_account_id_from.induct)
  case (1 db rands tries)
  from 1(2) have lt: "tries < 10000"
    by (subst (asm) gen_account_id_from_step) (simp split: if_splits)
  show ?case
  proof (cases "account_index db (candidate (rands tries)) = None")
    case True
    with 1(2) lt have "out = candidate (rands tries)"
      by (subst (asm) gen_account_id_from_step) simp
    with True lt show ?thesis by (intro exI[of _ tries]) auto
  next
    case False
    with 1(2) lt have "gen_account_id_from db rands (Suc tries) = Some out"
      by (subst (asm) gen_account_id_from_step) auto
    from 1(1)[OF lt refl refl _ this] False
    obtain k where k: "Suc tries \<le> k" "k < 10000" "out = candidate (rands k)"
      "account_index db out = None"
      "\<forall>j. Suc tries \<le> j \<and> j < k \<longrightarrow> account_index db (candidate (rands j)) \<noteq> None"
      by (auto simp: candidate_def)
    have "\<forall>j. tries \<le> j \<and> j < k \<longrightarrow> account_index db (candidate (rands j)) \<noteq> None"
      using k(5) False by (metis Suc_leI le_neq_implies_less)
    with k show ?thesis by (intro exI[of _ k]) auto
  qed
qed

lemma cmd_create_account_saved:
  assumes "cmd_create_account db rands user type csv = (out, Some db')"
  obtains aid os where
    "user \<noteq> []" "type = ''IND'' \<or> type = ''JOINT''" "length (accounts db) < MAX_ACCOUNTS"
    "gen_account_id db rands = Some aid"
    "parse_owners db (strtok_all (CHR '','') (take 255 csv) []) [] = Some os"
    "os \<noteq> []" "type = ''IND'' \<longrightarrow> os = [user]" "type = ''JOINT'' \<longrightarrow> user \<in> set os"
    "out = snprintf 128 (reply (''OK Created '' @ aid))"
    "db' = db\<lparr>accounts := accounts db @
       [\<lparr>acc_id = aid, isJoint = (type = ''JOINT''), owners = os,
         bal = Bal (Fin 0) (Fin 0) (Fin 0)\<rparr>]\<rparr>"
proof -
  from assms obtain aid os where h:
    "user \<noteq> []" "type = ''IND'' \<or> type = ''JOINT''" "length (accounts db) < MAX_ACCOUNTS"
    "gen_account_id db rands = Some aid"
    "parse_owners db (strtok_all (CHR '','') (take 255 csv) []) [] = Some os"
    "os \<noteq> []" "\<not> (type = ''IND'' \<and> length os \<noteq> 1)" "\<not> (type = ''IND'' \<and> hd os \<noteq> user)"
    "\<not> (type = ''JOINT'' \<and> user \<notin> set os)"
    "out = snprintf 128 (reply (''OK Created '' @ aid))"
    "db' = db\<lparr>accounts := accounts db @
       [\<lparr>acc_id = aid, isJoint = (type = ''JOINT''), owners = os,
         bal = Bal (Fin 0) (Fin 0) (Fin 0)\<rparr>]\<rparr>"
    unfolding cmd_create_account_def
    by (simp split: if_splits option.splits)
  have "type = ''IND'' \<longrightarrow> os = [user]"
  proof
    assume t: "type = ''IND''"
    with h(7) have "length os = 1" by simp
    then obtain x where "os = [x]" by (cases os) auto
    with h(8) t show "os = [user]" by simp
  qed
  with h show ?thesis using that by blast
qed

text \<open>
  C8. \<^verbatim>\<open>gen_account_id\<close> tries the identifier \<open>candidate (rands k)\<close> for
  \<open>k = 0, 1, \<dots>\<close> below 10000 and no further: it fails exactly when all of
  these 10000 collide with an account of the snapshot, and otherwise returns the
  first that does not. A candidate is \<^verbatim>\<open>ACC\<close> followed by four digits. A returned
  identifier is the identifier of no account of the snapshot. CREATE_ACCOUNT answers
  \<^verbatim>\<open>ERR Could not generate account id\<close>, saving nothing, exactly when it reaches
  the generation (logged in, type IND or JOINT, account limit not reached) and the
  generation fails; when it saves, the new account carries the generated identifier.
\<close>

theorem account_id_generation:
  "(gen_account_id db rands = None \<longleftrightarrow>
      (\<forall>k<10000. account_index db (candidate (rands k)) \<noteq> None)) \<and>
   (\<forall>out. gen_account_id db rands = Some out \<longrightarrow>
      (\<exists>k<10000. out = candidate (rands k) \<and>
         (\<forall>j<k. account_index db (candidate (rands j)) \<noteq> None)) \<and>
      length out = 7 \<and> take 3 out = ''ACC'' \<and> (\<forall>c\<in>set (drop 3 out). isdigit c) \<and>
      out \<notin> acc_id ` set (accounts db)) \<and>
   (cmd_create_account db rands user type csv =
      (reply ''ERR Could not generate account id'', None) \<longleftrightarrow>
      user \<noteq> [] \<and> (type = ''IND'' \<or> type = ''JOINT'') \<and>
      length (accounts db) < MAX_ACCOUNTS \<and> gen_account_id db rands = None) \<and>
   (fst (cmd_create_account db rands user type csv) =
      reply ''ERR Could not generate account id'' \<longrightarrow>
      snd (cmd_create_account db rands user type csv) = None) \<and>
   (\<forall>out db'. cmd_create_account db rands user type csv = (out, Some db') \<longrightarrow>
      (\<exists>a. db' = db\<lparr>accounts := accounts db @ [a]\<rparr> \<and>
           gen_account_id db rands = Some (acc_id a) \<and>
           acc_id a \<notin> acc_id ` set (accounts db)))"
proof (intro conjI allI impI)
  show "gen_account_id db rands = None \<longleftrightarrow>
      (\<forall>k<10000. account_index db (candidate (rands k)) \<noteq> None)"
    by (simp add: gen_account_id_def gen_account_id_from_None)
next
  fix out
  assume s: "gen_account_id db rands = Some out"
  from gen_account_id_from_Some[OF s[unfolded gen_account_id_def]]
  obtain k where k: "k < 10000" "out = candidate (rands k)"
    "account_index db out = None"
    "\<forall>j. j < k \<longrightarrow> account_index db (candidate (rands j)) \<noteq> None"
    by auto
  then show "\<exists>k<10000. out = candidate (rands k) \<and>
         (\<forall>j<k. account_index db (candidate (rands j)) \<noteq> None)"
    by auto
  from k(2) show "length out = 7" "take 3 out = ''ACC''" "\<forall>c\<in>set (drop 3 out). isdigit c"
    using candidate_format[of "rands k"] by simp_all
  from k(3) show "out \<notin> acc_id ` set (accounts db)"
    by (simp add: account_index_None)
next
  show "cmd_create_account db rands user type csv =
      (reply ''ERR Could not generate account id'', None) \<longleftrightarrow>
      user \<noteq> [] \<and> (type = ''IND'' \<or> type = ''JOINT'') \<and>
      length (accounts db) < MAX_ACCOUNTS \<and> gen_account_id db rands = None"
    by (auto simp: cmd_create_account_def reply_def line_def split: option.splits)
next
  assume "fst (cmd_create_account db rands user type csv) =
      reply ''ERR Could not generate account id''"
  then have "take 4 (fst (cmd_create_account db rands user type csv)) = ''ERR ''"
    by (simp add: take4_reply)
  then show "snd (cmd_create_account db rands user type csv) = None"
    by (rule cmd_create_account_error)
next
  fix out db'
  assume "cmd_create_account db rands user type csv = (out, Some db')"
  then obtain aid os where h: "gen_account_id db rands = Some aid"
    "db' = db\<lparr>accounts := accounts db @
       [\<lparr>acc_id = aid, isJoint = (type = ''JOINT''), owners = os,
         bal = Bal (Fin 0) (Fin 0) (Fin 0)\<rparr>]\<rparr>"
    by (rule cmd_create_account_saved)
  from gen_account_id_from_Some[OF h(1)[unfolded gen_account_id_def]]
  have "account_index db aid = None" by auto
  then have "aid \<notin> acc_id ` set (accounts db)" by (simp add: account_index_None)
  with h show "\<exists>a. db' = db\<lparr>accounts := accounts db @ [a]\<rparr> \<and>
           gen_account_id db rands = Some (acc_id a) \<and>
           acc_id a \<notin> acc_id ` set (accounts db)"
    by (intro exI[of _ "\<lparr>acc_id = aid, isJoint = (type = ''JOINT''), owners = os,
         bal = Bal (Fin 0) (Fin 0) (Fin 0)\<rparr>"]) simp
qed

lemma candidate_values:
  "candidate 0 = ''ACC1000''" "candidate (Suc 0) = ''ACC1001''"
  by (simp_all add: candidate_def snprintf_def print_simps)

lemma alice_db_ids:
  "account_index alice_db ''ACC1000'' = Some 0"
  "account_index alice_db ''ACC1001'' = None"
  "acc_id ` set (accounts alice_db) = {''ACC1000''}"
  by (simp_all add: alice_db_def account_index_def)

lemma gen_account_id_alice:
  "gen_account_id alice_db rand_count = Some ''ACC1001''"
  by (simp add: gen_account_id_def gen_account_id_from_step[of _ _ 0]
      gen_account_id_from_step[of _ _ "Suc 0"] candidate_values alice_db_ids rand_count_def)

theorem account_id_generation_witness:
  "\<not> (\<exists>k<10000. account_index alice_db (candidate (rand_zero k)) = None) \<and>
   gen_account_id alice_db rand_zero = None \<and>
   ''alice'' \<noteq> [] \<and> length (accounts alice_db) < MAX_ACCOUNTS \<and>
   cmd_create_account alice_db rand_zero ''alice'' ''IND'' ''alice'' =
     (reply ''ERR Could not generate account id'', None) \<and>
   gen_account_id alice_db rand_count = Some ''ACC1001'' \<and>
   (\<exists>k<10000. ''ACC1001'' = candidate (rand_count k) \<and>
      (\<forall>j<k. account_index alice_db (candidate (rand_count j)) \<noteq> None)) \<and>
   length ''ACC1001'' = 7 \<and>
   ''ACC1001'' \<notin> acc_id ` set (accounts alice_db)"
proof -
  have all: "\<forall>k<10000. account_index alice_db (candidate (rand_zero k)) \<noteq> None"
    by (simp add: candidate_values alice_db_ids rand_zero_def)
  have len: "length (accounts alice_db) < MAX_ACCOUNTS"
    by (simp add: alice_db_def MAX_ACCOUNTS_def)
  show ?thesis
    using all len gen_account_id_alice
      account_id_generation[of alice_db rand_zero "''alice''" "''IND''" "''alice''"]
      account_id_generation[of alice_db rand_count "''alice''" "''IND''" "''alice''"]
    by simp
qed

section \<open>The owners of a new account\<close>

lemma parse_owners_Some:
  "parse_owners db toks acc = Some os \<Longrightarrow> length acc \<le> MAX_OWNERS \<Longrightarrow>
     os = acc @ map (take (USERNAME_LEN - 1)) (take (MAX_OWNERS - length acc) toks) \<and>
     (\<forall>t\<in>set (take (MAX_OWNERS - length acc) toks). user_index db t \<noteq> None)"
proof (induction toks arbitrary: acc)
  case Nil
  then show ?case by simp
next
  case (Cons tok toks)
  show ?case
  proof (cases "length acc < MAX_OWNERS")
    case False
    with Cons.prems show ?thesis by simp
  next
    case True
    with Cons.prems(1) have reg: "user_index db tok \<noteq> None"
      and rest: "parse_owners db toks (acc @ [take (USERNAME_LEN - 1) tok]) = Some os"
      by (auto split: if_splits)
    from True have l: "length (acc @ [take (USERNAME_LEN - 1) tok]) \<le> MAX_OWNERS" by simp
    from True obtain m where m: "MAX_OWNERS - length acc = Suc m"
      by (cases "MAX_OWNERS - length acc") auto
    then have m': "MAX_OWNERS - length (acc @ [take (USERNAME_LEN - 1) tok]) = m" by simp
    from Cons.IH[OF rest l] reg show ?thesis
      unfolding m m' by simp
  qed
qed

lemma parse_owners_None:
  "length acc \<le> MAX_OWNERS \<Longrightarrow>
   parse_owners db toks acc = None \<longleftrightarrow>
     (\<exists>t\<in>set (take (MAX_OWNERS - length acc) toks). user_index db t = None)"
proof (induction toks arbitrary: acc)
  case Nil
  then show ?case by simp
next
  case (Cons tok toks)
  show ?case
  proof (cases "length acc < MAX_OWNERS")
    case False
    with Cons.prems show ?thesis by simp
  next
    case True
    then have l: "length (acc @ [take (USERNAME_LEN - 1) tok]) \<le> MAX_OWNERS" by simp
    from True obtain m where m: "MAX_OWNERS - length acc = Suc m"
      by (cases "MAX_OWNERS - length acc") auto
    then have m': "MAX_OWNERS - length (acc @ [take (USERNAME_LEN - 1) tok]) = m" by simp
    show ?thesis
      using Cons.IH[OF l] True unfolding m m' by auto
  qed
qed

lemma registered_name_short:
  assumes "\<forall>u\<in>set (users db). length (username u) < USERNAME_LEN"
    and "user_index db t \<noteq> None"
  shows "take (USERNAME_LEN - 1) t = t"
proof -
  from assms(2) have "t \<in> username ` set (users db)" by (simp add: user_index_None)
  with assms(1) have "length t < USERNAME_LEN" by auto
  then show ?thesis by simp
qed

text \<open>
  C7, as the code has it. Let \<open>toks\<close> be the first five names of the owner list
  (the non-empty comma-separated fields); names after the fifth are ignored. In a
  snapshot whose user names fit their buffers, a CREATE_ACCOUNT that succeeds appends
  one account whose owners are exactly \<open>toks\<close>: between one and five registered
  user names, the caller among them, and for IND the caller alone. CREATE_ACCOUNT is
  rejected with an error and saves nothing when \<open>toks\<close> is empty, when one of
  \<open>toks\<close> is not registered, when the type is IND and \<open>toks\<close> is not the caller
  alone, and when the type is JOINT and the caller is not in \<open>toks\<close>.
\<close>

theorem create_account_owners:
  assumes wf: "\<forall>u\<in>set (users db). length (username u) < USERNAME_LEN"
    and toks: "toks = take MAX_OWNERS (strtok_all (CHR '','') (take 255 csv) [])"
  shows "(\<forall>out db'. cmd_create_account db rands user type csv = (out, Some db') \<longrightarrow>
           (\<exists>aid. db' = db\<lparr>accounts := accounts db @
              [\<lparr>acc_id = aid, isJoint = (type = ''JOINT''), owners = toks,
                bal = Bal (Fin 0) (Fin 0) (Fin 0)\<rparr>]\<rparr>) \<and>
           (type = ''IND'' \<or> type = ''JOINT'') \<and>
           (type = ''IND'' \<longrightarrow> toks = [user]) \<and>
           user \<in> set toks \<and>
           1 \<le> length toks \<and> length toks \<le> 5 \<and>
           1 \<le> card (set toks) \<and> card (set toks) \<le> 5 \<and>
           set toks \<subseteq> username ` set (users db)) \<and>
         (toks = [] \<or> (\<exists>t\<in>set toks. user_index db t = None) \<or>
          (type = ''IND'' \<and> toks \<noteq> [user]) \<or> (type = ''JOINT'' \<and> user \<notin> set toks) \<longrightarrow>
            take 4 (fst (cmd_create_account db rands user type csv)) = ''ERR '' \<and>
            snd (cmd_create_account db rands user type csv) = None)"
proof -
  have good: "\<forall>out db'. cmd_create_account db rands user type csv = (out, Some db') \<longrightarrow>
           (\<exists>aid. db' = db\<lparr>accounts := accounts db @
              [\<lparr>acc_id = aid, isJoint = (type = ''JOINT''), owners = toks,
                bal = Bal (Fin 0) (Fin 0) (Fin 0)\<rparr>]\<rparr>) \<and>
           (type = ''IND'' \<or> type = ''JOINT'') \<and>
           (type = ''IND'' \<longrightarrow> toks = [user]) \<and>
           user \<in> set toks \<and>
           1 \<le> length toks \<and> length toks \<le> 5 \<and>
           1 \<le> card (set toks) \<and> card (set toks) \<le> 5 \<and>
           set toks \<subseteq> username ` set (users db)"
  proof (intro allI impI)
    fix out db'
    assume ok: "cmd_create_account db rands user type csv = (out, Some db')"
    then obtain aid os where h:
      "type = ''IND'' \<or> type = ''JOINT''"
      "parse_owners db (strtok_all (CHR '','') (take 255 csv) []) [] = Some os"
      "os \<noteq> []" "type = ''IND'' \<longrightarrow> os = [user]" "type = ''JOINT'' \<longrightarrow> user \<in> set os"
      "db' = db\<lparr>accounts := accounts db @
         [\<lparr>acc_id = aid, isJoint = (type = ''JOINT''), owners = os,
           bal = Bal (Fin 0) (Fin 0) (Fin 0)\<rparr>]\<rparr>"
      by (rule cmd_create_account_saved)
    from parse_owners_Some[OF h(2)] toks
    have os: "os = map (take (USERNAME_LEN - 1)) toks"
      and reg: "\<forall>t\<in>set toks. user_index db t \<noteq> None" by simp_all
    from reg wf have "map (take (USERNAME_LEN - 1)) toks = toks"
      by (intro map_idI registered_name_short) auto
    with os have eq: "os = toks" by simp
    have 1: "\<exists>aid. db' = db\<lparr>accounts := accounts db @
                [\<lparr>acc_id = aid, isJoint = (type = ''JOINT''), owners = toks,
                  bal = Bal (Fin 0) (Fin 0) (Fin 0)\<rparr>]\<rparr>"
      using h(6) eq by auto
    have 2: "type = ''IND'' \<longrightarrow> toks = [user]" using h(4) eq by simp
    have u: "user \<in> set toks" using h(1,4,5) eq by auto
    have l1: "1 \<le> length toks" using h(3) eq by (cases toks) auto
    have l5: "length toks \<le> 5" using toks by (simp add: MAX_OWNERS_def)
    from u have "0 < card (set toks)" by (auto simp: card_gt_0_iff)
    then have c1: "1 \<le> card (set toks)" by simp
    have c5: "card (set toks) \<le> 5" using card_length[of toks] l5 by linarith
    have sub: "set toks \<subseteq> username ` set (users db)"
      using reg by (auto simp: user_index_None)
    from 1 h(1) 2 u l1 l5 c1 c5 sub
    show "(\<exists>aid. db' = db\<lparr>accounts := accounts db @
              [\<lparr>acc_id = aid, isJoint = (type = ''JOINT''), owners = toks,
                bal = Bal (Fin 0) (Fin 0) (Fin 0)\<rparr>]\<rparr>) \<and>
           (type = ''IND'' \<or> type = ''JOINT'') \<and>
           (type = ''IND'' \<longrightarrow> toks = [user]) \<and>
           user \<in> set toks \<and>
           1 \<le> length toks \<and> length toks \<le> 5 \<and>
           1 \<le> card (set toks) \<and> card (set toks) \<le> 5 \<and>
           set toks \<subseteq> username ` set (users db)"
      by (intro conjI)
  qed
  have bad: "toks = [] \<or> (\<exists>t\<in>set toks. user_index db t = None) \<or>
          (type = ''IND'' \<and> toks \<noteq> [user]) \<or> (type = ''JOINT'' \<and> user \<notin> set toks) \<longrightarrow>
            take 4 (fst (cmd_create_account db rands user type csv)) = ''ERR '' \<and>
            snd (cmd_create_account db rands user type csv) = None"
  proof
    assume bad: "toks = [] \<or> (\<exists>t\<in>set toks. user_index db t = None) \<or>
          (type = ''IND'' \<and> toks \<noteq> [user]) \<or> (type = ''JOINT'' \<and> user \<notin> set toks)"
    have none: "snd (cmd_create_account db rands user type csv) = None"
    proof (rule ccontr)
      assume "snd (cmd_create_account db rands user type csv) \<noteq> None"
      then obtain out db' where
        ok: "cmd_create_account db rands user type csv = (out, Some db')"
        by (cases "cmd_create_account db rands user type csv") auto
      with good have "toks \<noteq> []" "type = ''IND'' \<longrightarrow> toks = [user]" "user \<in> set toks"
        "set toks \<subseteq> username ` set (users db)"
        by (fastforce, blast, blast, blast)
      with bad show False by (auto simp: user_index_None)
    qed
    have "snd (cmd_create_account db rands user type csv) = None \<longrightarrow>
        take 4 (fst (cmd_create_account db rands user type csv)) = ''ERR ''"
      by (simp add: cmd_create_account_def take4_reply split: option.split)
    with none show "take 4 (fst (cmd_create_account db rands user type csv)) = ''ERR '' \<and>
            snd (cmd_create_account db rands user type csv) = None" by simp
  qed
  show ?thesis by (rule conjI[OF good bad])
qed

lemma club_db_users:
  "user_index club_db ''ann'' = Some 0" "user_index club_db ''ben'' = Some 1"
  "user_index club_db ''cat'' = Some 2" "user_index club_db ''dan'' = Some 3"
  "user_index club_db ''eve'' = Some 4" "user_index club_db ''ghost'' = None"
  "username ` set (users club_db) = {''ann'', ''ben'', ''cat'', ''dan'', ''eve''}"
  by (simp_all add: club_db_def user_index_def)

lemma club_db_wf: "\<forall>u\<in>set (users club_db). length (username u) < USERNAME_LEN"
  by (simp add: club_db_def USERNAME_LEN_def)

lemma club_db_gen: "gen_account_id club_db rand_zero = Some ''ACC1000''"
  by (simp add: gen_account_id_def gen_account_id_from_step[of _ _ 0] candidate_values
      club_db_def account_index_def rand_zero_def)

lemma six_names:
  "strtok_all (CHR '','') (take 255 ''ann,ben,cat,dan,eve,ghost'') [] =
     [''ann'', ''ben'', ''cat'', ''dan'', ''eve'', ''ghost'']"
  by simp

lemma club_parse_owners:
  "parse_owners club_db [''ann'', ''ben'', ''cat'', ''dan'', ''eve'', ''ghost''] [] =
     Some [''ann'', ''ben'', ''cat'', ''dan'', ''eve'']"
  by (simp add: club_db_users MAX_OWNERS_def USERNAME_LEN_def)

lemma club_len: "\<not> MAX_ACCOUNTS \<le> length (accounts club_db)"
  by (simp add: club_db_def MAX_ACCOUNTS_def)

lemma club_joint_run:
  "cmd_create_account club_db rand_zero ''ann'' ''JOINT'' ''ann,ben,cat,dan,eve,ghost'' =
     (reply ''OK Created ACC1000'',
      Some (club_db\<lparr>accounts :=
        [\<lparr>acc_id = ''ACC1000'', isJoint = True,
          owners = [''ann'', ''ben'', ''cat'', ''dan'', ''eve''],
          bal = Bal (Fin 0) (Fin 0) (Fin 0)\<rparr>]\<rparr>))"
  unfolding cmd_create_account_def six_names club_db_gen club_parse_owners
  using club_len
  by (simp add: snprintf_def reply_def line_def) (simp add: club_db_def)

theorem create_account_owners_witness:
  "list_all (\<lambda>u. length (username u) < USERNAME_LEN) (users club_db) \<and>
   [''ann'', ''ben'', ''cat'', ''dan'', ''eve''] =
     take MAX_OWNERS (strtok_all (CHR '','') (take 255 ''ann,ben,cat,dan,eve,ghost'') []) \<and>
   (cmd_create_account club_db rand_zero ''ann'' ''JOINT'' ''ann,ben,cat,dan,eve,ghost'' =
     (reply ''OK Created ACC1000'',
      Some (club_db\<lparr>accounts :=
        [\<lparr>acc_id = ''ACC1000'', isJoint = True,
          owners = [''ann'', ''ben'', ''cat'', ''dan'', ''eve''],
          bal = Bal (Fin 0) (Fin 0) (Fin 0)\<rparr>]\<rparr>)) \<and>
   ''ann'' \<in> set [''ann'', ''ben'', ''cat'', ''dan'', ''eve''] \<and>
   set [''ann'', ''ben'', ''cat'', ''dan'', ''eve''] \<subseteq> username ` set (users club_db) \<and>
   [''ann'', ''ben'', ''cat'', ''dan'', ''eve''] \<noteq> [''ann''] \<and>
   take 4 (fst (cmd_create_account club_db rand_zero ''ann'' ''IND''
     ''ann,ben,cat,dan,eve,ghost'')) = ''ERR '' \<and>
   snd (cmd_create_account club_db rand_zero ''ann'' ''IND''
     ''ann,ben,cat,dan,eve,ghost'') = None)"
proof -
  have t: "[''ann'', ''ben'', ''cat'', ''dan'', ''eve''] =
     take MAX_OWNERS (strtok_all (CHR '','') (take 255 ''ann,ben,cat,dan,eve,ghost'') [])"
    unfolding six_names by (simp add: MAX_OWNERS_def)
  have rest: "cmd_create_account club_db rand_zero ''ann'' ''JOINT''
       ''ann,ben,cat,dan,eve,ghost'' =
     (reply ''OK Created ACC1000'',
      Some (club_db\<lparr>accounts :=
        [\<lparr>acc_id = ''ACC1000'', isJoint = True,
          owners = [''ann'', ''ben'', ''cat'', ''dan'', ''eve''],
          bal = Bal (Fin 0) (Fin 0) (Fin 0)\<rparr>]\<rparr>)) \<and>
   ''ann'' \<in> set [''ann'', ''ben'', ''cat'', ''dan'', ''eve''] \<and>
   set [''ann'', ''ben'', ''cat'', ''dan'', ''eve''] \<subseteq> username ` set (users club_db) \<and>
   [''ann'', ''ben'', ''cat'', ''dan'', ''eve''] \<noteq> [''ann''] \<and>
   take 4 (fst (cmd_create_account club_db rand_zero ''ann'' ''IND''
     ''ann,ben,cat,dan,eve,ghost'')) = ''ERR '' \<and>
   snd (cmd_create_account club_db rand_zero ''ann'' ''IND''
     ''ann,ben,cat,dan,eve,ghost'') = None"
    using club_joint_run
      create_account_owners[OF club_db_wf t, of rand_zero "''ann''" "''IND''"]
    by (simp add: club_db_users)
  have wf: "list_all (\<lambda>u. length (username u) < USERNAME_LEN) (users club_db)"
    using club_db_wf by (simp add: list_all_iff)
  show ?thesis by (rule conjI[OF wf conjI[OF t rest]])
qed

text \<open>
  The claim as written fails: the sixth owner of the list is not registered, and the
  account is created all the same, with the first five.
\<close>

theorem unregistered_sixth_owner_counterexample:
  "''ghost'' \<in> set (strtok_all (CHR '','') (take 255 ''ann,ben,cat,dan,eve,ghost'') []) \<and>
   user_index club_db ''ghost'' = None \<and>
   cmd_create_account club_db rand_zero ''ann'' ''JOINT'' ''ann,ben,cat,dan,eve,ghost'' =
     (reply ''OK Created ACC1000'',
      Some (club_db\<lparr>accounts :=
        [\<lparr>acc_id = ''ACC1000'', isJoint = True,
          owners = [''ann'', ''ben'', ''cat'', ''dan'', ''eve''],
          bal = Bal (Fin 0) (Fin 0) (Fin 0)\<rparr>]\<rparr>))"
  unfolding six_names using club_joint_run by (simp add: club_db_users)

section \<open>Evaluating the scanning functions\<close>

lemma read_lines_Nil: "read_lines [] = []"
  by (subst read_lines.simps) simp

lemma read_lines_Cons:
  "read_lines (c # cs) =
     fst (fgets_take 1023 (c # cs)) # read_lines (snd (fgets_take 1023 (c # cs)))"
  by (subst read_lines.simps) simp

lemma to_double_zero: "to_double 0 = Fin 0"
  by (simp add: to_double_def)

lemma to_double_hundred: "to_double 100 = Fin 100"
  using to_double_small[of 100 46 7036874417766400] by simp

lemmas scan_simps =
  isspace_def isdigit_def isxdigit_def tolower_def digit_val_def trim_newline_def
  scan_s_def scan_lit_def scan_sign_def to_int32_def scan_d_def exp_char_def
  strtod_exp_def strtod_digits_def strtod_buf_def scan_number_def scan_lf_def
  scan_user_def scan_acc_def scan2_def scan_deposit_def scan_exchange_def

section \<open>The session of a connection\<close>

lemma cmd_login_cases:
  "cmd_login db u p user = (reply ''ERR No such user'', user) \<and> user_index db u = None \<or>
   (\<exists>i. cmd_login db u p user = (reply ''ERR Wrong password'', user) \<and>
        user_index db u = Some i \<and> password (users db ! i) \<noteq> p) \<or>
   (\<exists>i. cmd_login db u p user = (reply ''OK Logged in'', u) \<and>
        user_index db u = Some i \<and> password (users db ! i) = p)"
  by (cases "user_index db u") (simp_all add: cmd_login_def)

lemma cmd_login_changes:
  assumes "snd (cmd_login db u p user) \<noteq> user"
  shows "\<exists>i. cmd_login db u p user = (reply ''OK Logged in'', u) \<and>
             user_index db u = Some i \<and> password (users db ! i) = p"
  using assms cmd_login_cases[of db u p user] by auto

lemma handle_line_session:
  assumes "fst (snd (handle_line rands user store raw)) \<noteq> user"
  shows "\<exists>u p r. scan_s 31 (trim_newline raw) = Some (''LOGIN'', r) \<and>
           scan2 ''LOGIN'' 31 31 (trim_newline raw) = Some (u, p) \<and>
           handle_line rands user store raw =
             (fst (cmd_login (db_load_locked store) u p user),
              snd (cmd_login (db_load_locked store) u p user), store, True) \<and>
           snd (cmd_login (db_load_locked store) u p user) \<noteq> user"
proof -
  define trimmed where "trimmed = trim_newline raw"
  from assms have ne: "trimmed \<noteq> []"
    by (auto simp: handle_line_def trimmed_def Let_def)
  from assms ne obtain cmd r where c: "scan_s 31 trimmed = Some (cmd, r)"
    by (cases "scan_s 31 trimmed") (auto simp: handle_line_def trimmed_def Let_def)
  have login: "cmd = ''LOGIN''"
  proof (rule ccontr)
    assume "cmd \<noteq> ''LOGIN''"
    with ne c have "fst (snd (handle_line rands user store raw)) = user"
      unfolding handle_line_def trimmed_def[symmetric] Let_def
      by (simp split: option.split prod.split)
    with assms show False by simp
  qed
  from assms ne c login obtain u p where s: "scan2 ''LOGIN'' 31 31 trimmed = Some (u, p)"
    unfolding handle_line_def trimmed_def[symmetric] Let_def
    by (cases "scan2 ''LOGIN'' 31 31 trimmed") auto
  have h: "handle_line rands user store raw =
             (fst (cmd_login (db_load_locked store) u p user),
              snd (cmd_login (db_load_locked store) u p user), store, True)"
    using ne c login s unfolding handle_line_def trimmed_def[symmetric] Let_def
    by (simp split: prod.split)
  with assms have "snd (cmd_login (db_load_locked store) u p user) \<noteq> user" by simp
  with c login s h show ?thesis unfolding trimmed_def by blast
qed

lemma handle_line_register:
  assumes "scan_s 31 (trim_newline raw) = Some (''REGISTER'', r)"
  shows "fst (snd (handle_line rands user store raw)) = user \<and>
         (\<forall>u p. scan2 ''REGISTER'' 31 31 (trim_newline raw) = Some (u, p) \<longrightarrow>
            handle_line rands user store raw =
              (fst (locked (\<lambda>db. cmd_register db u p) store), user,
               snd (locked (\<lambda>db. cmd_register db u p) store), True))"
proof -
  define trimmed where "trimmed = trim_newline raw"
  from assms have ne: "trimmed \<noteq> []" by (auto simp: trimmed_def scan_s_def Let_def)
  show ?thesis
    using ne assms unfolding handle_line_def trimmed_def[symmetric] Let_def
    by (simp split: option.split prod.split)
qed

text \<open>
  C9. One round of \<^verbatim>\<open>handleClient\<close> changes \<^verbatim>\<open>loggedUser\<close> only when the line
  is a LOGIN with two arguments for which \<^verbatim>\<open>cmd_login\<close> answers
  \<^verbatim>\<open>OK Logged in\<close> (the user exists, the password matches); the new value is then
  the name given. A REGISTER line never changes it. REGISTER of a name that exists, or
  with \<^verbatim>\<open>MAX_USERS\<close> users stored, answers with an error and saves nothing, so the
  store and its users stay as they were.
\<close>

theorem session_changes_only_on_login:
  "(fst (snd (handle_line rands user store raw)) \<noteq> user \<longrightarrow>
      (\<exists>u p r i. scan_s 31 (trim_newline raw) = Some (''LOGIN'', r) \<and>
         scan2 ''LOGIN'' 31 31 (trim_newline raw) = Some (u, p) \<and>
         user_index (db_load_locked store) u = Some i \<and>
         password (users (db_load_locked store) ! i) = p \<and>
         handle_line rands user store raw = (reply ''OK Logged in'', u, store, True))) \<and>
   (\<forall>r. scan_s 31 (trim_newline raw) = Some (''REGISTER'', r) \<longrightarrow>
      fst (snd (handle_line rands user store raw)) = user) \<and>
   (user_index db u \<noteq> None \<longrightarrow>
      cmd_register db u p = (reply ''ERR User already exists'', None)) \<and>
   (user_index db u = None \<and> MAX_USERS \<le> length (users db) \<longrightarrow>
      cmd_register db u p = (reply ''ERR User limit reached'', None)) \<and>
   (\<forall>r u p. scan_s 31 (trim_newline raw) = Some (''REGISTER'', r) \<and>
      scan2 ''REGISTER'' 31 31 (trim_newline raw) = Some (u, p) \<and>
      (user_index (db_load_locked store) u \<noteq> None \<or>
       MAX_USERS \<le> length (users (db_load_locked store))) \<longrightarrow>
      take 4 (fst (handle_line rands user store raw)) = ''ERR '' \<and>
      snd (handle_line rands user store raw) = (user, store, True))"
proof (intro conjI)
  show "fst (snd (handle_line rands user store raw)) \<noteq> user \<longrightarrow>
      (\<exists>u p r i. scan_s 31 (trim_newline raw) = Some (''LOGIN'', r) \<and>
         scan2 ''LOGIN'' 31 31 (trim_newline raw) = Some (u, p) \<and>
         user_index (db_load_locked store) u = Some i \<and>
         password (users (db_load_locked store) ! i) = p \<and>
         handle_line rands user store raw = (reply ''OK Logged in'', u, store, True))"
  proof
    assume "fst (snd (handle_line rands user store raw)) \<noteq> user"
    from handle_line_session[OF this] obtain u p r where h:
      "scan_s 31 (trim_newline raw) = Some (''LOGIN'', r)"
      "scan2 ''LOGIN'' 31 31 (trim_newline raw) = Some (u, p)"
      "handle_line rands user store raw =
         (fst (cmd_login (db_load_locked store) u p user),
          snd (cmd_login (db_load_locked store) u p user), store, True)"
      "snd (cmd_login (db_load_locked store) u p user) \<noteq> user"
      by blast
    from cmd_login_changes[OF h(4)] obtain i where i:
      "cmd_login (db_load_locked store) u p user = (reply ''OK Logged in'', u)"
      "user_index (db_load_locked store) u = Some i"
      "password (users (db_load_locked store) ! i) = p"
      by blast
    from h(3) i(1) have "handle_line rands user store raw =
        (reply ''OK Logged in'', u, store, True)" by simp
    with h(1,2) i(2,3) show "\<exists>u p r i. scan_s 31 (trim_newline raw) = Some (''LOGIN'', r) \<and>
         scan2 ''LOGIN'' 31 31 (trim_newline raw) = Some (u, p) \<and>
         user_index (db_load_locked store) u = Some i \<and>
         password (users (db_load_locked store) ! i) = p \<and>
         handle_line rands user store raw = (reply ''OK Logged in'', u, store, True)"
      by blast
  qed
next
  show "\<forall>r. scan_s 31 (trim_newline raw) = Some (''REGISTER'', r) \<longrightarrow>
      fst (snd (handle_line rands user store raw)) = user"
    using handle_line_register by blast
next
  show "user_index db u \<noteq> None \<longrightarrow>
      cmd_register db u p = (reply ''ERR User already exists'', None)"
    by (simp add: cmd_register_def)
next
  show "user_index db u = None \<and> MAX_USERS \<le> length (users db) \<longrightarrow>
      cmd_register db u p = (reply ''ERR User limit reached'', None)"
    by (simp add: cmd_register_def)
next
  show "\<forall>r u p. scan_s 31 (trim_newline raw) = Some (''REGISTER'', r) \<and>
      scan2 ''REGISTER'' 31 31 (trim_newline raw) = Some (u, p) \<and>
      (user_index (db_load_locked store) u \<noteq> None \<or>
       MAX_USERS \<le> length (users (db_load_locked store))) \<longrightarrow>
      take 4 (fst (handle_line rands user store raw)) = ''ERR '' \<and>
      snd (handle_line rands user store raw) = (user, store, True)"
  proof (intro allI impI)
    fix r u p
    assume a: "scan_s 31 (trim_newline raw) = Some (''REGISTER'', r) \<and>
      scan2 ''REGISTER'' 31 31 (trim_newline raw) = Some (u, p) \<and>
      (user_index (db_load_locked store) u \<noteq> None \<or>
       MAX_USERS \<le> length (users (db_load_locked store)))"
    then have h: "handle_line rands user store raw =
              (fst (locked (\<lambda>db. cmd_register db u p) store), user,
               snd (locked (\<lambda>db. cmd_register db u p) store), True)"
      using handle_line_register by blast
    from a have e: "cmd_register (db_load_locked store) u p =
        (reply ''ERR User already exists'', None) \<or>
      cmd_register (db_load_locked store) u p = (reply ''ERR User limit reached'', None)"
      by (auto simp: cmd_register_def)
    then have "take 4 (fst (locked (\<lambda>db. cmd_register db u p) store)) = ''ERR '' \<and>
               snd (locked (\<lambda>db. cmd_register db u p) store) = store"
      by (auto simp: locked_def take4_reply)
    with h show "take 4 (fst (handle_line rands user store raw)) = ''ERR '' \<and>
      snd (handle_line rands user store raw) = (user, store, True)" by simp
  qed
qed

lemma handle_line_login:
  assumes "scan_s 31 (trim_newline raw) = Some (''LOGIN'', r)"
    and "scan2 ''LOGIN'' 31 31 (trim_newline raw) = Some (u, p)"
  shows "handle_line rands user store raw =
           (fst (cmd_login (db_load_locked store) u p user),
            snd (cmd_login (db_load_locked store) u p user), store, True)"
proof -
  define trimmed where "trimmed = trim_newline raw"
  from assms have ne: "trimmed \<noteq> []" by (auto simp: trimmed_def scan_s_def Let_def)
  show ?thesis
    using ne assms unfolding handle_line_def trimmed_def[symmetric] Let_def
    by (simp split: prod.split)
qed

text \<open>
  C10. \<^verbatim>\<open>cmd_login\<close> on a name that is not registered, or with a password that
  differs from the stored one, answers with an error and leaves \<^verbatim>\<open>loggedUser\<close> as
  it was, whoever was logged in; with the stored password it answers
  \<^verbatim>\<open>OK Logged in\<close> and sets \<^verbatim>\<open>loggedUser\<close> to the name given, whoever was logged
  in before. \<^verbatim>\<open>handleClient\<close> passes a LOGIN line with two arguments to
  \<^verbatim>\<open>cmd_login\<close> and keeps the session it returns; the store is not written.
\<close>

theorem login_keeps_or_rebinds_session:
  "(user_index db u = None \<longrightarrow>
      cmd_login db u p user = (reply ''ERR No such user'', user)) \<and>
   (\<forall>i. user_index db u = Some i \<and> password (users db ! i) \<noteq> p \<longrightarrow>
      cmd_login db u p user = (reply ''ERR Wrong password'', user)) \<and>
   (\<forall>i. user_index db u = Some i \<and> password (users db ! i) = p \<longrightarrow>
      cmd_login db u p user = (reply ''OK Logged in'', u)) \<and>
   (\<forall>r. scan_s 31 (trim_newline raw) = Some (''LOGIN'', r) \<and>
      scan2 ''LOGIN'' 31 31 (trim_newline raw) = Some (u, p) \<longrightarrow>
      handle_line rands user store raw =
        (fst (cmd_login (db_load_locked store) u p user),
         snd (cmd_login (db_load_locked store) u p user), store, True))"
proof (intro conjI allI impI)
  show "cmd_login db u p user = (reply ''ERR No such user'', user)"
    if "user_index db u = None"
    using that by (simp add: cmd_login_def)
  show "cmd_login db u p user = (reply ''ERR Wrong password'', user)"
    if "user_index db u = Some i \<and> password (users db ! i) \<noteq> p" for i
    using that by (simp add: cmd_login_def)
  show "cmd_login db u p user = (reply ''OK Logged in'', u)"
    if "user_index db u = Some i \<and> password (users db ! i) = p" for i
    using that by (simp add: cmd_login_def)
  show "handle_line rands user store raw =
        (fst (cmd_login (db_load_locked store) u p user),
         snd (cmd_login (db_load_locked store) u p user), store, True)"
    if "scan_s 31 (trim_newline raw) = Some (''LOGIN'', r) \<and>
      scan2 ''LOGIN'' 31 31 (trim_newline raw) = Some (u, p)" for r
    using that handle_line_login by blast
qed

section \<open>The example store, loaded and saved\<close>

lemma alice_lines:
  "read_lines alice_store =
     [line ''USER alice pw1'', line ''USER bob pw2'',
      line ''ACC ACC1000 IND 1 alice 100.00 0.00 0.00'']"
  by (simp add: alice_store_def line_def read_lines_Nil read_lines_Cons)

lemma alice_acc_scan:
  "scan_acc ''ACC ACC1000 IND 1 alice 100.00 0.00 0.00'' =
     Some (''ACC1000'', ''IND'', 1, ''alice'', Fin 100, Fin 0, Fin 0)"
  by (simp add: scan_simps Let_def to_double_hundred to_double_zero)

lemma load_alice: "db_load_locked alice_store = alice_db"
  unfolding db_load_locked_def alice_lines
  by (simp add: load_line_def line_def trim_newline_def scan_user_def scan_lit_def
      scan_s_def isspace_def alice_acc_scan MAX_USERS_def MAX_ACCOUNTS_def MAX_OWNERS_def
      USERNAME_LEN_def alice_db_def Let_def)

lemma fmt_hundred: "fmt_f 2 (Fin 100) = ''100.00''"
  using round_half_even_int[of 10000] by (simp add: print_simps)

lemma fmt_zero: "fmt_f 2 (Fin 0) = ''0.00''"
  using round_half_even_int[of 0] by (simp add: print_simps)

lemma save_alice: "db_save_locked alice_db = alice_store"
  by (simp add: db_save_locked_def alice_db_def alice_store_def user_line_def acc_line_def
      line_def fmt_hundred fmt_zero fmt_d_def dec_nat_small digit_def)

lemma login_lines:
  "trim_newline (line ''LOGIN alice pw1'') = ''LOGIN alice pw1''"
  "scan_s 31 ''LOGIN alice pw1'' = Some (''LOGIN'', '' alice pw1'')"
  "scan2 ''LOGIN'' 31 31 ''LOGIN alice pw1'' = Some (''alice'', ''pw1'')"
  "trim_newline (line ''LOGIN bob pw2'') = ''LOGIN bob pw2''"
  "scan_s 31 ''LOGIN bob pw2'' = Some (''LOGIN'', '' bob pw2'')"
  "scan2 ''LOGIN'' 31 31 ''LOGIN bob pw2'' = Some (''bob'', ''pw2'')"
  "trim_newline (line ''LOGIN bob guess'') = ''LOGIN bob guess''"
  "scan_s 31 ''LOGIN bob guess'' = Some (''LOGIN'', '' bob guess'')"
  "scan2 ''LOGIN'' 31 31 ''LOGIN bob guess'' = Some (''bob'', ''guess'')"
  "trim_newline (line ''LOGIN carol pw3'') = ''LOGIN carol pw3''"
  "scan_s 31 ''LOGIN carol pw3'' = Some (''LOGIN'', '' carol pw3'')"
  "scan2 ''LOGIN'' 31 31 ''LOGIN carol pw3'' = Some (''carol'', ''pw3'')"
  by (simp_all add: scan_simps line_def)

lemma register_lines:
  "trim_newline (line ''REGISTER alice zzz'') = ''REGISTER alice zzz''"
  "scan_s 31 ''REGISTER alice zzz'' = Some (''REGISTER'', '' alice zzz'')"
  "scan2 ''REGISTER'' 31 31 ''REGISTER alice zzz'' = Some (''alice'', ''zzz'')"
  by (simp_all add: scan_simps line_def)

lemma alice_db_passwords:
  "password (users alice_db ! 0) = ''pw1''" "password (users alice_db ! 1) = ''pw2''"
  "password (users alice_db ! Suc 0) = ''pw2''"
  "user_index alice_db ''carol'' = None"
  by (simp_all add: alice_db_def user_index_def)

lemma alice_logs_in:
  "handle_line rand_zero [] alice_store (line ''LOGIN alice pw1'') =
     (reply ''OK Logged in'', ''alice'', alice_store, True)"
  unfolding handle_line_def login_lines Let_def load_alice
  by (simp add: cmd_login_def alice_db_lookup alice_db_passwords)

lemma alice_registers_again:
  "handle_line rand_zero [] alice_store (line ''REGISTER alice zzz'') =
     (reply ''ERR User already exists'', [], alice_store, True)"
  unfolding handle_line_def register_lines Let_def
  by (simp add: locked_def load_alice cmd_register_def alice_db_lookup)

theorem session_changes_only_on_login_witness:
  "fst (snd (handle_line rand_zero [] alice_store (line ''LOGIN alice pw1''))) \<noteq> [] \<and>
   scan_s 31 (trim_newline (line ''LOGIN alice pw1'')) = Some (''LOGIN'', '' alice pw1'') \<and>
   scan2 ''LOGIN'' 31 31 (trim_newline (line ''LOGIN alice pw1'')) =
     Some (''alice'', ''pw1'') \<and>
   user_index (db_load_locked alice_store) ''alice'' = Some 0 \<and>
   password (users (db_load_locked alice_store) ! 0) = ''pw1'' \<and>
   handle_line rand_zero [] alice_store (line ''LOGIN alice pw1'') =
     (reply ''OK Logged in'', ''alice'', alice_store, True) \<and>
   scan_s 31 (trim_newline (line ''REGISTER alice zzz'')) =
     Some (''REGISTER'', '' alice zzz'') \<and>
   scan2 ''REGISTER'' 31 31 (trim_newline (line ''REGISTER alice zzz'')) =
     Some (''alice'', ''zzz'') \<and>
   user_index (db_load_locked alice_store) ''alice'' \<noteq> None \<and>
   cmd_register alice_db ''alice'' ''zzz'' = (reply ''ERR User already exists'', None) \<and>
   handle_line rand_zero [] alice_store (line ''REGISTER alice zzz'') =
     (reply ''ERR User already exists'', [], alice_store, True)"
  using session_changes_only_on_login[of rand_zero "[]" alice_store
      "line ''LOGIN alice pw1''" alice_db "''alice''" "''zzz''"]
    session_changes_only_on_login[of rand_zero "[]" alice_store
      "line ''REGISTER alice zzz''" alice_db "''alice''" "''zzz''"]
    alice_logs_in alice_registers_again
  by (simp add: login_lines register_lines load_alice alice_db_lookup alice_db_passwords)

theorem login_keeps_or_rebinds_session_witness:
  "user_index alice_db ''carol'' = None \<and>
   cmd_login alice_db ''carol'' ''pw3'' ''alice'' = (reply ''ERR No such user'', ''alice'') \<and>
   user_index alice_db ''bob'' = Some 1 \<and> password (users alice_db ! 1) \<noteq> ''guess'' \<and>
   cmd_login alice_db ''bob'' ''guess'' ''alice'' =
     (reply ''ERR Wrong password'', ''alice'') \<and>
   password (users alice_db ! 1) = ''pw2'' \<and>
   cmd_login alice_db ''bob'' ''pw2'' ''alice'' = (reply ''OK Logged in'', ''bob'') \<and>
   scan_s 31 (trim_newline (line ''LOGIN bob guess'')) = Some (''LOGIN'', '' bob guess'') \<and>
   scan2 ''LOGIN'' 31 31 (trim_newline (line ''LOGIN bob guess'')) =
     Some (''bob'', ''guess'') \<and>
   handle_line rand_zero ''alice'' alice_store (line ''LOGIN bob guess'') =
     (reply ''ERR Wrong password'', ''alice'', alice_store, True) \<and>
   handle_line rand_zero ''alice'' alice_store (line ''LOGIN bob pw2'') =
     (reply ''OK Logged in'', ''bob'', alice_store, True)"
  using login_keeps_or_rebinds_session[of alice_db "''carol''" "''pw3''" "''alice''"
      "line ''LOGIN carol pw3''" rand_zero alice_store]
    login_keeps_or_rebinds_session[of alice_db "''bob''" "''guess''" "''alice''"
      "line ''LOGIN bob guess''" rand_zero alice_store]
    login_keeps_or_rebinds_session[of alice_db "''bob''" "''pw2''" "''alice''"
      "line ''LOGIN bob pw2''" rand_zero alice_store]
  by (simp add: login_lines load_alice alice_db_lookup alice_db_passwords)

section \<open>EXCHANGE on the example stores\<close>

lemma exchange_ten_lines:
  "trim_newline (line ''EXCHANGE ACC1000 USD EUR 10'') = ''EXCHANGE ACC1000 USD EUR 10''"
  "scan_s 31 ''EXCHANGE ACC1000 USD EUR 10'' = Some (''EXCHANGE'', '' ACC1000 USD EUR 10'')"
  "scan_exchange ''EXCHANGE ACC1000 USD EUR 10'' =
     Some (''ACC1000'', ''USD'', ''EUR'', Fin 10)"
  using to_double_small[of 10 49 5629499534213120]
  by (simp_all add: scan_simps line_def Let_def)

lemma fmt_ninety: "fmt_f 2 (Fin 90) = ''90.00''"
  using round_half_even_int[of 9000] by (simp add: print_simps)

lemma save_alice_exchanged: "db_save_locked alice_db_exchanged = alice_store_exchanged"
  by (simp add: db_save_locked_def alice_db_exchanged_def alice_store_exchanged_def
      user_line_def acc_line_def line_def fmt_ninety fmt_converted fmt_zero fmt_d_def
      dec_nat_small digit_def)

lemma exchange_ten_usd_handled:
  "handle_line rand_zero ''alice'' alice_store (line ''EXCHANGE ACC1000 USD EUR 10'') =
     (reply ''OK Exchanged 10.00 USD -> 9.09 EUR (rate=0.909091)'', ''alice'',
      alice_store_exchanged, True)"
  unfolding handle_line_def exchange_ten_lines Let_def
  by (simp add: locked_def load_alice exchange_ten_usd_run save_alice_exchanged)
























section \<open>A deposit of NaN\<close>

lemma nan_deposit_scan:
  "trim_newline (line ''DEPOSIT ACC1000 USD nan'') = ''DEPOSIT ACC1000 USD nan''"
  "scan_s 31 ''DEPOSIT ACC1000 USD nan'' = Some (''DEPOSIT'', '' ACC1000 USD nan'')"
  "scan_deposit ''DEPOSIT ACC1000 USD nan'' = Some (''DEPOSIT'', ''ACC1000'', ''USD'', NaN)"
  by (simp_all add: scan_simps line_def Let_def)

lemma nan_deposit_cmd:
  "cmd_deposit_withdraw alice_db ''alice'' ''DEPOSIT'' ''ACC1000'' ''USD'' NaN =
     (reply ''OK Done'', Some nan_db)"
  unfolding cmd_deposit_withdraw_def alice_db_lookup
  by (simp add: alice_db_def nan_db_def is_owner_def)

lemma fmt_nan: "fmt_f prec NaN = ''nan''"
  by (simp add: fmt_f_def)

lemma save_nan_db: "db_save_locked nan_db = nan_store"
  by (simp add: db_save_locked_def nan_db_def nan_store_def user_line_def acc_line_def
      line_def fmt_zero fmt_nan fmt_d_def dec_nat_small digit_def)

lemma nan_lines:
  "read_lines nan_store =
     [line ''USER alice pw1'', line ''USER bob pw2'',
      line ''ACC ACC1000 IND 1 alice nan 0.00 0.00'']"
  by (simp add: nan_store_def line_def read_lines_Nil read_lines_Cons)

lemma nan_acc_scan:
  "scan_acc ''ACC ACC1000 IND 1 alice nan 0.00 0.00'' =
     Some (''ACC1000'', ''IND'', 1, ''alice'', NaN, Fin 0, Fin 0)"
  by (simp add: scan_simps Let_def to_double_zero)

lemma load_nan: "db_load_locked nan_store = nan_db"
  unfolding db_load_locked_def nan_lines
  by (simp add: load_line_def line_def trim_newline_def scan_user_def scan_lit_def
      scan_s_def isspace_def nan_acc_scan MAX_USERS_def MAX_ACCOUNTS_def MAX_OWNERS_def
      USERNAME_LEN_def nan_db_def Let_def)

lemma million_withdraw_scan:
  "trim_newline (line ''WITHDRAW ACC1000 USD 1000000'') = ''WITHDRAW ACC1000 USD 1000000''"
  "scan_s 31 ''WITHDRAW ACC1000 USD 1000000'' =
     Some (''WITHDRAW'', '' ACC1000 USD 1000000'')"
  "scan_deposit ''WITHDRAW ACC1000 USD 1000000'' =
     Some (''WITHDRAW'', ''ACC1000'', ''USD'', Fin 1000000)"
  using to_double_small[of 1000000 33 8589934592000000]
  by (simp_all add: scan_simps line_def Let_def)

lemma nan_db_lookup: "account_index nan_db ''ACC1000'' = Some 0"
  by (simp add: nan_db_def account_index_def)

lemma million_withdraw_cmd:
  "cmd_deposit_withdraw nan_db ''alice'' ''WITHDRAW'' ''ACC1000'' ''USD'' (Fin 1000000) =
     (reply ''OK Done'', Some nan_db)"
  unfolding cmd_deposit_withdraw_def alice_db_lookup nan_db_lookup
  by (simp add: nan_db_def is_owner_def fsub_def)

text \<open>
  C3 fails on the code. In the ledger of the scenario, where all balances are
  non-negative, alice sends \<^verbatim>\<open>DEPOSIT ACC1000 USD nan\<close>. \<^verbatim>\<open>%lf\<close> reads NaN,
  \<^verbatim>\<open>amount <= 0.0\<close> is false for it, the deposit is accepted and the store then
  holds \<^verbatim>\<open>nan\<close> as the USD balance, which is not \<^verbatim>\<open>>= 0\<close>. From then on
  \<^verbatim>\<open>bal < amount\<close> is false for every amount: a withdrawal of a million is
  accepted.
\<close>

theorem nan_deposit_breaks_nonnegativity:
  "bal (accounts alice_db ! 0) = Bal (Fin 100) (Fin 0) (Fin 0) \<and>
   fle (Fin 0) (Fin 100) \<and> fle (Fin 0) (Fin 0) \<and>
   db_load_locked alice_store = alice_db \<and>
   handle_line rand_zero ''alice'' alice_store (line ''DEPOSIT ACC1000 USD nan'') =
     (reply ''OK Done'', ''alice'', nan_store, True) \<and>
   db_load_locked nan_store = nan_db \<and>
   bal (accounts nan_db ! 0) = Bal NaN (Fin 0) (Fin 0) \<and>
   \<not> fle (Fin 0) NaN \<and>
   handle_line rand_zero ''alice'' nan_store (line ''WITHDRAW ACC1000 USD 1000000'') =
     (reply ''OK Done'', ''alice'', nan_store, True)"
proof -
  have d: "handle_line rand_zero ''alice'' alice_store (line ''DEPOSIT ACC1000 USD nan'') =
     (reply ''OK Done'', ''alice'', nan_store, True)"
    unfolding handle_line_def nan_deposit_scan Let_def
    by (simp add: locked_def load_alice nan_deposit_cmd save_nan_db)
  have w: "handle_line rand_zero ''alice'' nan_store
       (line ''WITHDRAW ACC1000 USD 1000000'') =
     (reply ''OK Done'', ''alice'', nan_store, True)"
    unfolding handle_line_def million_withdraw_scan Let_def
    by (simp add: locked_def load_nan million_withdraw_cmd save_nan_db)
  show ?thesis
    using d w by (simp add: load_alice load_nan alice_db_account) (simp add: nan_db_def)
qed

section \<open>Decimal digits\<close>

lemma num_val_append: "num_val b (xs @ ys) acc = num_val b ys (num_val b xs acc)"
  by (induction xs arbitrary: acc) simp_all

lemma isdigit_cases:
  assumes "isdigit c"
  obtains "c = CHR ''0''" | "c = CHR ''1''" | "c = CHR ''2''" | "c = CHR ''3''"
    | "c = CHR ''4''" | "c = CHR ''5''" | "c = CHR ''6''" | "c = CHR ''7''"
    | "c = CHR ''8''" | "c = CHR ''9''"
  using assms unfolding isdigit_def by auto

lemma digit_val_digit:
  assumes "isdigit c"
  shows "digit_val c < 10 \<and> digit (digit_val c) = c \<and> (digit_val c = 0 \<longleftrightarrow> c = CHR ''0'')"
  using assms
  by (rule isdigit_cases) (simp_all add: digit_val_def tolower_def digit_def)

lemma dec_nat_snoc:
  assumes "0 < n" "d < 10"
  shows "dec_nat (10 * n + d) = dec_nat n @ [digit d]"
proof -
  have "10 \<le> 10 * n + d" using assms by simp
  moreover have "(10 * n + d) div 10 = n" "(10 * n + d) mod 10 = d" using assms by simp_all
  ultimately show ?thesis using dec_nat_big[of "10 * n + d"] by simp
qed

lemma dec_nat_num_val:
  "ds \<noteq> [] \<Longrightarrow> list_all isdigit ds \<Longrightarrow> hd ds \<noteq> CHR ''0'' \<Longrightarrow>
     dec_nat (num_val 10 ds 0) = ds \<and> 0 < num_val 10 ds 0"
proof (induction ds rule: rev_induct)
  case Nil
  then show ?case by simp
next
  case (snoc c xs)
  from snoc.prems(2) have c: "isdigit c" and xs: "list_all isdigit xs" by simp_all
  note dv = digit_val_digit[OF c]
  show ?case
  proof (cases "xs = []")
    case True
    with snoc.prems(3) have "c \<noteq> CHR ''0''" by simp
    with dv have "0 < digit_val c" "digit_val c < 10" "digit (digit_val c) = c"
      by simp_all
    with True show ?thesis by (simp add: dec_nat_small)
  next
    case False
    with snoc.prems(3) have "hd xs \<noteq> CHR ''0''" by simp
    from snoc.IH[OF False xs this]
    have ih: "dec_nat (num_val 10 xs 0) = xs" "0 < num_val 10 xs 0" by simp_all
    have e: "num_val 10 (xs @ [c]) 0 = 10 * num_val 10 xs 0 + digit_val c"
      by (simp add: num_val_append)
    from dv have d: "digit_val c < 10" "digit (digit_val c) = c" by simp_all
    have "dec_nat (10 * num_val 10 xs 0 + digit_val c) = dec_nat (num_val 10 xs 0) @ [c]"
      using dec_nat_snoc[OF ih(2) d(1)] d(2) by simp
    with ih e show ?thesis by simp
  qed
qed

lemma fmt_f_nat: "fmt_f 2 (Fin (of_nat n)) = dec_nat n @ ''.00''"
proof -
  have "round_half_even (of_int (int (n * 100))) = int (n * 100)"
    by (rule round_half_even_int)
  then have r: "nat (round_half_even (rat_of_nat n * 100)) = n * 100"
    by simp
  show ?thesis
    by (simp add: fmt_f_def Let_def r dec_nat_small digit_def)
qed

lemma digit_char:
  assumes "isdigit d"
  shows "\<not> isspace d" "d \<noteq> CHR ''-''" "d \<noteq> CHR ''+''" "tolower d = d"
    "d \<noteq> CHR ''n''" "d \<noteq> CHR ''i''" "d \<noteq> CHR ''x''" "d \<noteq> CHR ''.''"
  using assms
  by (rule isdigit_cases; simp add: isspace_def tolower_def)+

lemma takeWhile_digits:
  assumes "list_all isdigit ds" "\<not> isdigit c"
  shows "takeWhile isdigit (ds @ c # r) = ds" "takeWhile isdigit ds = ds"
  using assms by (induction ds) simp_all

lemma scan_float_chars_digits:
  "list_all isdigit ds \<Longrightarrow>
     scan_float_chars False g dot e buf (ds @ rest) =
     scan_float_chars False (g \<or> ds \<noteq> []) dot e (buf @ ds) rest"
  by (induction ds arbitrary: g buf) simp_all

lemma strtod_whole:
  assumes ds: "ds \<noteq> []" "list_all isdigit ds" "hd ds \<noteq> CHR ''0''"
  shows "strtod_buf (ds @ ''.00'') = Some (of_nat (num_val 10 ds 0))"
    and "strtod_buf ds = Some (of_nat (num_val 10 ds 0))"
proof -
  from ds obtain d ds' where dd: "ds = d # ds'" "isdigit d" "d \<noteq> CHR ''0''"
    by (cases ds) auto
  note dc = digit_char[OF dd(2)]
  have nd: "\<not> isdigit CHR ''.''" by (simp add: isdigit_def)
  have d0: "isdigit CHR ''0''" by (simp add: isdigit_def)
  have hx: "take 2 (map tolower (ds @ r)) \<noteq> ''0x''" for r
    using dd dc by (cases ds') simp_all
  have tw: "takeWhile isdigit (ds @ ''.00'') = ds"
    using takeWhile_digits(1)[OF ds(2) nd, of "''00''"] by simp
  have nv: "num_val 10 (ds @ ''00'') 0 = num_val 10 ds 0 * 100"
    by (simp add: num_val_append digit_val_def tolower_def)
  show "strtod_buf (ds @ ''.00'') = Some (of_nat (num_val 10 ds 0))"
    using hx[of "''.00''"] ds(1)
    by (simp add: strtod_buf_def strtod_digits_def Let_def tw nv strtod_exp_def d0)
  have tw2: "takeWhile isdigit ds = ds" using takeWhile_digits(2)[OF ds(2) nd] .
  show "strtod_buf ds = Some (of_nat (num_val 10 ds 0))"
    using hx[of "[]"] ds(1)
    by (simp add: strtod_buf_def strtod_digits_def Let_def tw2 strtod_exp_def)
qed

lemma scan_number_whole:
  assumes ds: "ds \<noteq> []" "list_all isdigit ds" "hd ds \<noteq> CHR ''0''"
  shows "scan_number (ds @ ''.00'' @ CHR '' '' # rest) =
           Some (of_nat (num_val 10 ds 0), CHR '' '' # rest)"
    and "scan_number ds = Some (of_nat (num_val 10 ds 0), [])"
proof -
  from ds obtain d ds' where dd: "ds = d # ds'" "isdigit d" "d \<noteq> CHR ''0''"
    by (cases ds) auto
  note dc = digit_char[OF dd(2)]
  have sfc: "scan_float_chars False False False False [] (ds @ ''.00'' @ CHR '' '' # rest) =
      (ds @ ''.00'', CHR '' '' # rest)"
    using ds(1)
    by (simp add: scan_float_chars_digits[OF ds(2)] isdigit_def tolower_def exp_char_def)
  have sfc2: "scan_float_chars False False False False [] ds = (ds, [])"
    using scan_float_chars_digits[OF ds(2), of False False False "[]" "[]"] by simp
  have hx: "map tolower (ds @ r) \<noteq> ''0x''" for r
    using dd dc by simp
  have "scan_number (d # ds' @ ''.00'' @ CHR '' '' # rest) =
           Some (of_nat (num_val 10 ds 0), CHR '' '' # rest)"
    using sfc hx[of "''.00''"] strtod_whole(1)[OF ds] dd ds(1)
    by (simp add: scan_number_def)
  then show "scan_number (ds @ ''.00'' @ CHR '' '' # rest) =
           Some (of_nat (num_val 10 ds 0), CHR '' '' # rest)"
    using dd by simp
  have "scan_number (d # ds') = Some (of_nat (num_val 10 ds 0), [])"
    using sfc2 hx[of "[]"] strtod_whole(2)[OF ds] dd ds(1)
    by (simp add: scan_number_def)
  then show "scan_number ds = Some (of_nat (num_val 10 ds 0), [])"
    using dd by simp
qed

lemma scan_lf_whole:
  assumes ds: "ds \<noteq> []" "list_all isdigit ds" "hd ds \<noteq> CHR ''0''"
  shows "scan_lf (CHR '' '' # ds @ ''.00'' @ CHR '' '' # rest) =
           Some (to_double (of_nat (num_val 10 ds 0)), CHR '' '' # rest)"
    and "scan_lf (CHR '' '' # ds) = Some (to_double (of_nat (num_val 10 ds 0)), [])"
proof -
  from ds obtain d ds' where dd: "ds = d # ds'" "isdigit d" "d \<noteq> CHR ''0''"
    by (cases ds) auto
  note dc = digit_char[OF dd(2)]
  have sp: "isspace CHR '' ''" by (simp add: isspace_def)
  have dw: "dropWhile isspace (CHR '' '' # ds @ r) = ds @ r" for r
    using sp dc(1) dd(1) by simp
  have sg: "scan_sign (ds @ r) = (False, ds @ r)" for r
    using dc dd(1) by (simp add: scan_sign_def)
  have t1: "take 1 (map tolower (ds @ r)) = [d]" for r
    using dc dd(1) by simp
  show "scan_lf (CHR '' '' # ds @ ''.00'' @ CHR '' '' # rest) =
           Some (to_double (of_nat (num_val 10 ds 0)), CHR '' '' # rest)"
    unfolding scan_lf_def dw sg
    using t1[of "''.00'' @ CHR '' '' # rest"] dc scan_number_whole(1)[OF ds, of rest]
    by simp
  show "scan_lf (CHR '' '' # ds) = Some (to_double (of_nat (num_val 10 ds 0)), [])"
    unfolding scan_lf_def
    using dw[of "[]"] sg[of "[]"] t1[of "[]"] dc scan_number_whole(2)[OF ds]
    by simp
qed

lemma trim_newline_id:
  assumes "xs \<noteq> []" "last xs \<noteq> CHR 0x0A" "last xs \<noteq> CHR 0x0D"
  shows "trim_newline xs = xs"
proof -
  from assms(1) obtain ys y where xs: "xs = ys @ [y]" by (cases xs rule: rev_cases) auto
  with assms(2,3) show ?thesis by (simp add: trim_newline_def)
qed

lemma fgets_take_exact:
  "CHR 0x0A \<notin> set xs \<Longrightarrow> fgets_take (length xs) (xs @ ys) = (xs, ys)"
proof (induction xs)
  case Nil
  show ?case by (cases ys) simp_all
next
  case (Cons x xs)
  from Cons.prems have "x \<noteq> CHR 0x0A" "CHR 0x0A \<notin> set xs" by auto
  with Cons.IH show ?case by simp
qed

lemma to_double_exact:
  assumes "2 ^ 52 \<le> m" "m < 2 ^ 53" "k \<le> 970"
  shows "to_double (of_int m * 2 ^ k) = Fin (of_int m * 2 ^ k)"
proof -
  have m: "(2::rat) ^ 52 \<le> of_int m" "(of_int m :: rat) < 2 ^ 53"
    using assms(1,2) by (metis of_int_le_iff of_int_numeral of_int_power,
      metis of_int_less_iff of_int_numeral of_int_power)
  have "to_double (of_int m * 2 ^ k) = Fin (of_int m * 2 ^ k)"
  proof (rule to_double_large)
    show "(0::rat) < of_int m * 2 ^ k" using m(1) by (simp add: zero_less_mult_iff) 
    show "(2::rat) ^ 52 * 2 ^ k \<le> of_int m * 2 ^ k" using m(1) by simp
    show "(of_int m :: rat) * 2 ^ k < 2 ^ 53 * 2 ^ k" using m(2) by simp
    show "k \<le> 970" by fact
    show "\<bar>(of_int m :: rat) * 2 ^ k / 2 ^ k - of_int m\<bar> < 1 / 2" by simp
  qed
  then show ?thesis .
qed

lemma to_double_near:
  assumes "2 ^ 52 * 2 ^ k \<le> q" "q < 2 ^ 53 * 2 ^ k" "k \<le> 970"
    and "\<bar>q - of_int m * 2 ^ k\<bar> * 2 < 2 ^ k"
  shows "to_double q = Fin (of_int m * 2 ^ k)"
proof (rule to_double_large)
  have "(0::rat) < 2 ^ 52 * 2 ^ k" by simp
  with assms(1) show "0 < q" by linarith
  show "2 ^ 52 * 2 ^ k \<le> q" "q < 2 ^ 53 * 2 ^ k" "k \<le> 970" by fact+
  have "\<bar>q / 2 ^ k - of_int m\<bar> = \<bar>q - of_int m * 2 ^ k\<bar> / 2 ^ k"
    by (simp add: field_simps abs_divide flip: abs_mult)
  also have "\<dots> < 1 / 2" using assms(4) by (simp add: field_simps)
  finally show "\<bar>q / 2 ^ k - of_int m\<bar> < 1 / 2" .
qed

lemma scan_lf_whole_nf:
  assumes ds: "ds \<noteq> []" "list_all isdigit ds" "hd ds \<noteq> CHR ''0''"
  shows "scan_lf (CHR '' '' # ds @ CHR ''.'' # CHR ''0'' # CHR ''0'' # CHR '' '' # rest) =
           Some (to_double (of_nat (num_val 10 ds 0)), CHR '' '' # rest)"
  using scan_lf_whole(1)[OF ds, of rest] by simp

lemma read_lines_step:
  "inp \<noteq> [] \<Longrightarrow>
     read_lines inp = fst (fgets_take 1023 inp) # read_lines (snd (fgets_take 1023 inp))"
  by (subst read_lines.simps) simp

section \<open>A line longer than the buffer of the loader\<close>

lemma big_facts:
  "big_digits \<noteq> []" "list_all isdigit big_digits" "hd big_digits \<noteq> CHR ''0''"
  "length big_digits = 307" "CHR 0x0A \<notin> set big_digits"
  "big_digits = cut_digits @ ''2002676667750021070848''"
  by (simp_all add: big_digits_def cut_digits_def isdigit_def)

lemma cut_facts:
  "cut_digits \<noteq> []" "list_all isdigit cut_digits" "hd cut_digits \<noteq> CHR ''0''"
  "length cut_digits = 285" "CHR 0x0A \<notin> set cut_digits" "last cut_digits = CHR ''2''"
  by (simp_all add: cut_digits_def isdigit_def)

lemma digit_val_chars:
  "digit_val CHR ''0'' = 0" "digit_val CHR ''1'' = 1" "digit_val CHR ''2'' = 2"
  "digit_val CHR ''3'' = 3" "digit_val CHR ''4'' = 4" "digit_val CHR ''5'' = 5"
  "digit_val CHR ''6'' = 6" "digit_val CHR ''7'' = 7" "digit_val CHR ''8'' = 8"
  "digit_val CHR ''9'' = 9"
  by (simp_all add: digit_val_def tolower_def)

lemma big_val: "rat_of_nat (num_val 10 big_digits 0) = big_amount"
  by (simp add: big_digits_def digit_val_chars big_amount_def)

lemma to_double_big: "to_double (of_nat (num_val 10 big_digits 0)) = Fin big_amount"
  unfolding big_val big_amount_def
  using to_double_exact[of 8016673440035891 967] by simp

lemma to_double_cut: "to_double (of_nat (num_val 10 cut_digits 0)) = Fin cut_amount"
proof -
  have v: "num_val 10 cut_digits 0 = 999999999999999986031059760256457771700264183812636387524966073588356585267274384906484641422896066678637928039265461539335317285025210333627595237061539701073069166468937517856903985107314633964162326607112672001102016955330401859645781268856194720117148846117292182213906692985128212"
    by (simp add: cut_digits_def digit_val_chars)
  show ?thesis
    unfolding v cut_amount_def
    using to_double_near[of 894 "999999999999999986031059760256457771700264183812636387524966073588356585267274384906484641422896066678637928039265461539335317285025210333627595237061539701073069166468937517856903985107314633964162326607112672001102016955330401859645781268856194720117148846117292182213906692985128212" 7571533991467358]
    by simp
qed

lemma to_double_sci: "to_double (10 ^ 307) = Fin big_amount"
  unfolding big_amount_def
  using to_double_near[of 967 "10 ^ 307" 8016673440035891] by simp

lemma wide_lines: "read_lines wide_store = [wide_store]"
  by (simp add: wide_store_def wide_head_def line_def read_lines_Nil read_lines_Cons)

lemma wide_acc_scan:
  "scan_acc (wide_head @ '' 1e307 1e307 1e307'') =
     Some (''ACC1000'', ''JOINT'', 3,
           ''aliceaaaaaaaaaaaaaaaaaaaaaaaaaa,bobbybbbbbbbbbbbbbbbbbbbbbbbbbb,carolcccccccccccccccccccccccccc'',
           Fin big_amount, Fin big_amount, Fin big_amount)"
  using to_double_sci by (simp add: scan_simps Let_def wide_head_def)

lemma load_wide: "db_load_locked wide_store = wide_db"
proof -
  have t: "trim_newline wide_store = wide_head @ '' 1e307 1e307 1e307''"
    by (simp add: wide_store_def wide_head_def line_def trim_newline_def)
  have h: "take 5 (trim_newline wide_store) = ''ACC A''"
    "take 4 (trim_newline wide_store) = ''ACC ''" "trim_newline wide_store \<noteq> []"
    unfolding t by (simp_all add: wide_head_def)
  have s: "scan_acc (trim_newline wide_store) =
     Some (''ACC1000'', ''JOINT'', 3,
           ''aliceaaaaaaaaaaaaaaaaaaaaaaaaaa,bobbybbbbbbbbbbbbbbbbbbbbbbbbbb,carolcccccccccccccccccccccccccc'',
           Fin big_amount, Fin big_amount, Fin big_amount)"
    unfolding t by (rule wide_acc_scan)
  show ?thesis
    unfolding db_load_locked_def wide_lines
    by (simp add: load_line_def h s MAX_USERS_def MAX_ACCOUNTS_def MAX_OWNERS_def
        USERNAME_LEN_def wide_db_def Let_def)
qed

lemma fmt_big: "fmt_f 2 (Fin big_amount) = big_digits @ ''.00''"
proof -
  have "fmt_f 2 (Fin (of_nat (num_val 10 big_digits 0))) =
      dec_nat (num_val 10 big_digits 0) @ ''.00''"
    by (rule fmt_f_nat)
  then show ?thesis
    using dec_nat_num_val[OF big_facts(1-3)] by (simp add: big_val)
qed

lemma save_wide:
  "db_save_locked wide_db = wide_chunk @ line ''2002676667750021070848.00''"
  by (simp add: db_save_locked_def wide_db_def wide_chunk_def wide_head_def acc_line_def
      line_def fmt_big fmt_d_def dec_nat_small digit_def big_facts(6))

lemma wide_chunk_facts:
  "length wide_chunk = 1023" "CHR 0x0A \<notin> set wide_chunk" "wide_chunk \<noteq> []"
  "last wide_chunk = CHR ''2''" "take 5 wide_chunk = ''ACC A''"
  "take 4 wide_chunk = ''ACC ''"
  by (simp_all add: wide_chunk_def wide_head_def big_facts(4,5) cut_facts(1,4,5,6))

lemma reload_lines:
  "read_lines (wide_chunk @ line ''2002676667750021070848.00'') =
     [wide_chunk, line ''2002676667750021070848.00'']"
proof -
  have f: "fgets_take 1023 (wide_chunk @ r) = (wide_chunk, r)" for r
    using fgets_take_exact[OF wide_chunk_facts(2), of r] by (simp add: wide_chunk_facts(1))
  have l: "read_lines (line ''2002676667750021070848.00'') = [line ''2002676667750021070848.00'']"
    by (simp add: line_def read_lines_Nil read_lines_Cons)
  have "wide_chunk @ line ''2002676667750021070848.00'' \<noteq> []"
    using wide_chunk_facts(3) by simp
  from read_lines_step[OF this] show ?thesis by (simp add: f l)
qed

lemma chunk_scan:
  "scan_acc wide_chunk =
     Some (''ACC1000'', ''JOINT'', 3,
           ''aliceaaaaaaaaaaaaaaaaaaaaaaaaaa,bobbybbbbbbbbbbbbbbbbbbbbbbbbbb,carolcccccccccccccccccccccccccc'',
           Fin big_amount, Fin big_amount, Fin cut_amount)"
  by (simp add: scan_acc_def scan_lit_def scan_s_def scan_d_def scan_sign_def to_int32_def
      isspace_def isdigit_def digit_val_chars Let_def wide_chunk_def wide_head_def
      scan_lf_whole_nf[OF big_facts(1-3)] scan_lf_whole(2)[OF cut_facts(1-3)]
      to_double_big to_double_cut)

lemma reload_wide: "db_load_locked (db_save_locked wide_db) = wide_db_reloaded"
proof -
  have t: "trim_newline wide_chunk = wide_chunk"
    by (rule trim_newline_id) (simp_all add: wide_chunk_facts)
  have r: "load_line db (line ''2002676667750021070848.00'') = db" for db
    by (simp add: load_line_def line_def trim_newline_def)
  have c: "load_line \<lparr>users = [], accounts = []\<rparr> wide_chunk = wide_db_reloaded"
    by (simp add: load_line_def t wide_chunk_facts chunk_scan MAX_USERS_def
        MAX_ACCOUNTS_def MAX_OWNERS_def USERNAME_LEN_def wide_db_reloaded_def Let_def)
  show ?thesis
    unfolding db_load_locked_def save_wide reload_lines
    by (simp add: r c)
qed

text \<open>
  C6 fails on the code. The store \<open>wide_store\<close> holds one line, a joint account of
  three owners with \<^verbatim>\<open>1e307\<close> in each currency, and \<^verbatim>\<open>db_load_locked\<close> reads the
  ledger \<open>wide_db\<close> from it. \<^verbatim>\<open>db_save_locked\<close> writes that account as a line of
  1048 characters and a newline, each balance with its 307 digits.
  \<^verbatim>\<open>fgets(line, 1024, fp)\<close> returns the first 1023 characters of it, then the rest
  as a line of its own. \<^verbatim>\<open>sscanf\<close> accepts the first piece, whose third balance
  is cut after 285 digits; the second piece is no record and is skipped. The ledger
  read back has \<open>cut_amount\<close>, about \<open>10^285\<close>, as the GBP balance where the saved
  one had \<open>big_amount\<close>, about \<open>10^307\<close>.
\<close>

theorem long_line_breaks_round_trip:
  "db_load_locked wide_store = wide_db \<and>
   db_save_locked wide_db = wide_chunk @ line ''2002676667750021070848.00'' \<and>
   length wide_chunk = 1023 \<and>
   read_lines (db_save_locked wide_db) =
     [wide_chunk, line ''2002676667750021070848.00''] \<and>
   db_load_locked (db_save_locked wide_db) = wide_db_reloaded \<and>
   bal (accounts wide_db ! 0) = Bal (Fin big_amount) (Fin big_amount) (Fin big_amount) \<and>
   bal (accounts wide_db_reloaded ! 0) =
     Bal (Fin big_amount) (Fin big_amount) (Fin cut_amount) \<and>
   fmt_f 2 (Fin big_amount) = big_digits @ ''.00'' \<and>
   cut_amount * 10 ^ 21 < big_amount \<and>
   db_load_locked (db_save_locked wide_db) \<noteq> wide_db"
proof -
  have lt: "cut_amount * 10 ^ 21 < big_amount"
    by (simp add: cut_amount_def big_amount_def)
  have "0 < cut_amount" by (simp add: cut_amount_def)
  then have "cut_amount < cut_amount * 10 ^ 21" by simp
  with lt have "cut_amount \<noteq> big_amount" by simp
  then have ne: "wide_db_reloaded \<noteq> wide_db"
    by (simp add: wide_db_reloaded_def wide_db_def)
  show ?thesis
    using load_wide save_wide wide_chunk_facts(1) reload_lines reload_wide fmt_big lt ne
    by (simp add: wide_db_def wide_db_reloaded_def)
qed
end
